theory Spec2Isabelle
  imports Main "HOL-Library.Word" "HOL-Library.AList" "HOL-Library.Code_Target_Nat"
begin

section \<open>JavaScript values and errors\<close>

text \<open>
  The program is one class, \<^verbatim>\<open>JsonDB\<close>: a document store kept in a single file, as
  plain JSON or, when a password is configured, as \<^verbatim>\<open>salt:iv:authTag:ciphertext\<close>.
  The model follows the class method by method. Values are the data values of
  JavaScript; numbers are the integers (document ids are millisecond timestamps), strings
  are byte strings (the UTF-8 form of the text), and an object is the list of its own
  properties in insertion order. \<open>JNative\<close> stands for the functions and objects that the
  runtime itself provides (\<^verbatim>\<open>Object.prototype.toString\<close>, \<^verbatim>\<open>Object\<close>, ...), each known by
  its name: they are what a read finds on a prototype.
\<close>

datatype jsval =
    JUndefined
  | JNull
  | JBool bool
  | JNum int
  | JStr string
  | JArr "jsval list"
  | JObj "(string \<times> jsval) list"
  | JNative string

type_synonym obj = "(string \<times> jsval) list"

type_synonym bytes = "8 word list"

text \<open>
  Every \<^verbatim>\<open>throw\<close> of the source and every exception of a library call it makes is a
  value of \<open>error\<close>:
  \<^item> \<open>InvalidFileFormat\<close>: \<^verbatim>\<open>new Error("Invalid file format")\<close> in \<^verbatim>\<open>_readDB\<close>;
  \<^item> \<open>InvalidEncryptedTextFormat\<close>: \<^verbatim>\<open>new Error("Invalid encrypted text format")\<close>
    in \<^verbatim>\<open>_decryptWithKey\<close>;
  \<^item> \<open>InvalidOldPassword\<close>: \<^verbatim>\<open>new Error("Invalid old password. Password change aborted.")\<close>
    in \<^verbatim>\<open>changePassword\<close>;
  \<^item> \<open>SyntaxError\<close>: thrown by \<^verbatim>\<open>JSON.parse\<close>;
  \<^item> \<open>AuthenticationFailed\<close>: thrown by \<^verbatim>\<open>decipher.final\<close> when the tag does not verify;
  \<^item> \<open>CryptoError\<close>: any other exception of the crypto library (unknown algorithm or
    digest, bad key or IV length);
  \<^item> \<open>TypeError\<close>: a property read on \<^verbatim>\<open>null\<close> or a call of a method the value lacks;
  \<^item> \<open>ENOENT\<close>: \<^verbatim>\<open>readFileSync\<close> on a file that does not exist.
\<close>

datatype error =
    InvalidFileFormat
  | InvalidEncryptedTextFormat
  | InvalidOldPassword
  | SyntaxError
  | AuthenticationFailed
  | CryptoError
  | TypeError
  | ENOENT

text \<open>
  The source throws plain \<^verbatim>\<open>Error\<close> objects told apart by their message only. The
  specification groups them (section 7): a \<^emph>\<open>format\<close> error is content that does not parse
  as the expected shape, an \<^emph>\<open>authentication\<close> error is a failed authenticated decryption
  or a refused old password.
\<close>

datatype error_kind = FormatError | AuthenticationError | OtherError

fun kind_of :: "error \<Rightarrow> error_kind" where
  "kind_of InvalidFileFormat = FormatError"
| "kind_of InvalidEncryptedTextFormat = FormatError"
| "kind_of SyntaxError = FormatError"
| "kind_of AuthenticationFailed = AuthenticationError"
| "kind_of InvalidOldPassword = AuthenticationError"
| "kind_of CryptoError = OtherError"
| "kind_of TypeError = OtherError"
| "kind_of ENOENT = OtherError"

section \<open>The platform\<close>

text \<open>
  The class calls into the JavaScript runtime: \<^verbatim>\<open>JSON.stringify\<close>, \<^verbatim>\<open>JSON.parse\<close>, the
  \<^verbatim>\<open>crypto\<close> module, and, at every property read, the prototype of the value read from.
  None of that is code of this program, so the model takes it as a parameter, a record
  of functions:
  \<^item> \<open>JSON_stringify data\<close> is \<^verbatim>\<open>JSON.stringify(data, null, 2)\<close>;
  \<^item> \<open>JSON_parse text\<close> is \<^verbatim>\<open>JSON.parse(text)\<close>, \<open>None\<close> when it throws;
  \<^item> \<open>pbkdf2Sync password salt iterations keylen digest\<close>;
  \<^item> \<open>cipheriv algorithm key iv text\<close> runs \<^verbatim>\<open>createCipheriv\<close>, \<^verbatim>\<open>update(text, "utf8")\<close>,
    \<^verbatim>\<open>final()\<close> and \<^verbatim>\<open>getAuthTag()\<close>, and gives the ciphertext and the tag;
  \<^item> \<open>decipheriv algorithm key iv authTag ciphertext\<close> runs \<^verbatim>\<open>createDecipheriv\<close>,
    \<^verbatim>\<open>setAuthTag\<close>, \<^verbatim>\<open>update(ciphertext, undefined, "utf8")\<close> and \<^verbatim>\<open>final("utf8")\<close>,
    and gives the text or the exception;
  \<^item> \<open>inherited p key\<close> is what a read of \<open>key\<close> finds on the prototype chain that starts
    at \<open>p\<close>, \<open>None\<close> when no prototype of the chain has the key. An object that
    \<^verbatim>\<open>JSON.parse\<close> or a spread has built starts at \<^verbatim>\<open>Object.prototype\<close>, where
    \<^verbatim>\<open>toString\<close>, \<^verbatim>\<open>constructor\<close> and others are found.
\<close>

datatype proto =
    ObjectProto
  | ArrayProto
  | StringProto
  | NumberProto
  | BooleanProto
  | OfNative string

record node =
  JSON_stringify :: "jsval \<Rightarrow> string"
  JSON_parse :: "string \<Rightarrow> jsval option"
  pbkdf2Sync :: "string \<Rightarrow> string \<Rightarrow> nat \<Rightarrow> nat \<Rightarrow> string \<Rightarrow> error + bytes"
  cipheriv :: "string \<Rightarrow> bytes \<Rightarrow> bytes \<Rightarrow> string \<Rightarrow> error + bytes \<times> bytes"
  decipheriv :: "string \<Rightarrow> bytes \<Rightarrow> bytes \<Rightarrow> bytes \<Rightarrow> bytes \<Rightarrow> error + string"
  inherited :: "proto \<Rightarrow> string \<Rightarrow> jsval option"

section \<open>Reading values\<close>

subsection \<open>Strict equality and property access\<close>

text \<open>
  \<^verbatim>\<open>a === b\<close>. Primitives compare by value. Arrays and objects compare by identity; in
  this program one side of every comparison is freshly built by \<^verbatim>\<open>JSON.parse\<close> or by a
  spread and the other comes from the caller, so two of them are never identical. What
  the runtime provides exists once: two of those are identical when they are the same.
\<close>

fun strict_eq :: "jsval \<Rightarrow> jsval \<Rightarrow> bool" where
  "strict_eq JUndefined JUndefined = True"
| "strict_eq JNull JNull = True"
| "strict_eq (JBool a) (JBool b) = (a = b)"
| "strict_eq (JNum a) (JNum b) = (a = b)"
| "strict_eq (JStr a) (JStr b) = (a = b)"
| "strict_eq (JNative a) (JNative b) = (a = b)"
| "strict_eq _ _ = False"

text \<open>Decimal digits of a natural number: the name of an array index.\<close>

fun decimal :: "nat \<Rightarrow> string" where
  "decimal n =
     (if n < 10 then [char_of (48 + n)]
      else decimal (n div 10) @ [char_of (48 + n mod 10)])"

declare decimal.simps [simp del]

text \<open>
  The own enumerable properties of a value, in order: those of an object; the indices of
  an array or of a string; none for the other primitives.
\<close>

fun own_props :: "jsval \<Rightarrow> obj" where
  "own_props (JObj kvs) = kvs"
| "own_props (JArr xs) = zip (map decimal [0..<length xs]) xs"
| "own_props (JStr s) = zip (map decimal [0..<length s]) (map (\<lambda>c. JStr [c]) s)"
| "own_props _ = []"

text \<open>
  Where a read starts its search when the value has no own property of that name: at the
  prototype of the kind of value. \<^verbatim>\<open>null\<close> and \<^verbatim>\<open>undefined\<close> have none.
\<close>

fun proto_of :: "jsval \<Rightarrow> proto option" where
  "proto_of JUndefined = None"
| "proto_of JNull = None"
| "proto_of (JBool b) = Some BooleanProto"
| "proto_of (JNum i) = Some NumberProto"
| "proto_of (JStr str) = Some StringProto"
| "proto_of (JArr xs) = Some ArrayProto"
| "proto_of (JObj kvs) = Some ObjectProto"
| "proto_of (JNative n) = Some (OfNative n)"

text \<open>The own property \<^verbatim>\<open>length\<close> of an array and of a string.\<close>

fun own_length :: "jsval \<Rightarrow> jsval option" where
  "own_length (JArr xs) = Some (JNum (int (length xs)))"
| "own_length (JStr str) = Some (JNum (int (length str)))"
| "own_length _ = None"

text \<open>
  \<^verbatim>\<open>v[key]\<close>: a read on \<^verbatim>\<open>null\<close> or \<^verbatim>\<open>undefined\<close> throws; otherwise the own property
  is read when there is one, else the inherited one, and a property found nowhere reads
  as \<^verbatim>\<open>undefined\<close>.
\<close>

definition get_prop :: "node \<Rightarrow> jsval \<Rightarrow> string \<Rightarrow> error + jsval" where
  "get_prop P v key =
     (case proto_of v of
        None \<Rightarrow> Inl TypeError
      | Some p \<Rightarrow>
          (case map_of (own_props v) key of
             Some x \<Rightarrow> Inr x
           | None \<Rightarrow>
               (case (if key = ''length'' then own_length v else None) of
                  Some n \<Rightarrow> Inr n
                | None \<Rightarrow>
                    (case inherited P p key of
                       Some b \<Rightarrow> Inr b
                     | None \<Rightarrow> Inr JUndefined))))"

text \<open>\<^verbatim>\<open>Object.keys(o)\<close> and \<^verbatim>\<open>o[key]\<close> for an object given by its properties.\<close>

definition Object_keys :: "obj \<Rightarrow> string list" where
  "Object_keys ob = map fst ob"

definition obj_get :: "obj \<Rightarrow> string \<Rightarrow> jsval" where
  "obj_get ob key = (case map_of ob key of Some x \<Rightarrow> x | None \<Rightarrow> JUndefined)"

text \<open>
  \<^verbatim>\<open>o[key] = v\<close> on an object: an existing property keeps its place, a new one goes last.
  This is \<^const>\<open>AList.update\<close>. The spread \<^verbatim>\<open>{ ...doc, ...updates }\<close> builds a new object
  from the own properties of \<^verbatim>\<open>doc\<close> and then assigns those of \<^verbatim>\<open>updates\<close> in order.
\<close>

definition assign_all :: "obj \<Rightarrow> obj \<Rightarrow> obj" where
  "assign_all ps target = fold (\<lambda>(k, v). AList.update k v) ps target"

definition spread :: "jsval \<Rightarrow> obj \<Rightarrow> jsval" where
  "spread doc updates = JObj (assign_all updates (assign_all (own_props doc) []))"

subsection \<open>Array methods whose callback may throw\<close>

fun filterE :: "('a \<Rightarrow> error + bool) \<Rightarrow> 'a list \<Rightarrow> error + 'a list" where
  "filterE p [] = Inr []"
| "filterE p (x # xs) =
     (case p x of
        Inl e \<Rightarrow> Inl e
      | Inr b \<Rightarrow>
          (case filterE p xs of
             Inl e \<Rightarrow> Inl e
           | Inr ys \<Rightarrow> Inr (if b then x # ys else ys)))"

fun mapE :: "('a \<Rightarrow> error + 'b) \<Rightarrow> 'a list \<Rightarrow> error + 'b list" where
  "mapE f [] = Inr []"
| "mapE f (x # xs) =
     (case f x of
        Inl e \<Rightarrow> Inl e
      | Inr y \<Rightarrow> (case mapE f xs of Inl e \<Rightarrow> Inl e | Inr ys \<Rightarrow> Inr (y # ys)))"

text \<open>\<^verbatim>\<open>xs.every(p)\<close> stops at the first element that fails.\<close>

fun everyE :: "('a \<Rightarrow> error + bool) \<Rightarrow> 'a list \<Rightarrow> error + bool" where
  "everyE p [] = Inr True"
| "everyE p (x # xs) =
     (case p x of
        Inl e \<Rightarrow> Inl e
      | Inr b \<Rightarrow> (if b then everyE p xs else Inr False))"

text \<open>\<^verbatim>\<open>xs.find(p)\<close>: the first element that satisfies \<open>p\<close>, or \<^verbatim>\<open>undefined\<close>.\<close>

fun findE :: "(jsval \<Rightarrow> error + bool) \<Rightarrow> jsval list \<Rightarrow> error + jsval" where
  "findE p [] = Inr JUndefined"
| "findE p (x # xs) =
     (case p x of
        Inl e \<Rightarrow> Inl e
      | Inr b \<Rightarrow> (if b then Inr x else findE p xs))"

section \<open>Strings and buffers\<close>

text \<open>\<^verbatim>\<open>s.indexOf(c)\<close>: the position of the first \<open>c\<close>, or \<open>-1\<close>.\<close>

fun indexOf :: "string \<Rightarrow> char \<Rightarrow> int" where
  "indexOf [] c = - 1"
| "indexOf (x # xs) c =
     (if x = c then 0
      else (let i = indexOf xs c in if i = - 1 then - 1 else i + 1))"

text \<open>
  \<^verbatim>\<open>s.substring(start, end)\<close> and \<^verbatim>\<open>s.substring(start)\<close>: both bounds are clamped to
  the string and swapped when out of order.
\<close>

definition substring :: "string \<Rightarrow> int \<Rightarrow> int \<Rightarrow> string" where
  "substring s start end' =
     (let n = int (length s);
          a = max 0 (min start n);
          b = max 0 (min end' n)
      in take (nat (max a b) - nat (min a b)) (drop (nat (min a b)) s))"

definition substring_from :: "string \<Rightarrow> int \<Rightarrow> string" where
  "substring_from s start = substring s start (int (length s))"

text \<open>\<^verbatim>\<open>s.split(c)\<close> for a one-character separator; the empty string gives one empty part.\<close>

fun split :: "char \<Rightarrow> string \<Rightarrow> string list" where
  "split c [] = [[]]"
| "split c (x # xs) =
     (if x = c then [] # split c xs
      else (case split c xs of
              [] \<Rightarrow> [[x]]
            | p # ps \<Rightarrow> (x # p) # ps))"

text \<open>\<^verbatim>\<open>buf.toString("hex")\<close>: two lower-case digits for each byte.\<close>

definition hex_digit :: "nat \<Rightarrow> char" where
  "hex_digit n = ''0123456789abcdef'' ! n"

definition hex_of_byte :: "8 word \<Rightarrow> string" where
  "hex_of_byte b = [hex_digit (unat b div 16), hex_digit (unat b mod 16)]"

definition toString_hex :: "bytes \<Rightarrow> string" where
  "toString_hex bs = concat (map hex_of_byte bs)"

text \<open>
  \<^verbatim>\<open>Buffer.from(s, "hex")\<close>: digits of either case are read in pairs; the result is cut
  at the first pair that is not two hexadecimal digits, and a last single character is
  dropped.
\<close>

definition hex_value :: "char \<Rightarrow> nat option" where
  "hex_value c =
     (let n = (of_char c :: nat)
      in if 48 \<le> n \<and> n \<le> 57 then Some (n - 48)
         else if 97 \<le> n \<and> n \<le> 102 then Some (n - 87)
         else if 65 \<le> n \<and> n \<le> 70 then Some (n - 55)
         else None)"

fun Buffer_from_hex :: "string \<Rightarrow> bytes" where
  "Buffer_from_hex (a # b # rest) =
     (case hex_value a of
        None \<Rightarrow> []
      | Some h \<Rightarrow>
          (case hex_value b of
             None \<Rightarrow> []
           | Some l \<Rightarrow> word_of_nat (16 * h + l) # Buffer_from_hex rest))"
| "Buffer_from_hex _ = []"

section \<open>The store\<close>

text \<open>
  The fields of a \<^verbatim>\<open>JsonDB\<close> instance, together with the part of the world its methods
  touch: \<open>disk\<close> is the content of the file at \<^verbatim>\<open>this.dbFile\<close> (\<open>None\<close> when the file does
  not exist), \<open>entropy\<close> is the stream of bytes that \<^verbatim>\<open>randomBytes\<close> will deliver and
  \<open>clock\<close> the stream of readings that \<^verbatim>\<open>Date.now()\<close> will return. A password that is
  \<^verbatim>\<open>null\<close> or \<^verbatim>\<open>undefined\<close> is \<open>None\<close>. Failures of the file system other than a
  missing file are not modelled.
\<close>

record jsondb =
  password :: "string option"
  iterations :: nat
  digest :: string
  algorithm :: string
  disk :: "string option"
  entropy :: "nat \<Rightarrow> 8 word"
  clock :: "nat \<Rightarrow> int"

definition randomBytes :: "nat \<Rightarrow> jsondb \<Rightarrow> bytes \<times> jsondb" where
  "randomBytes n s = (map (entropy s) [0..<n], s\<lparr>entropy := (\<lambda>i. entropy s (i + n))\<rparr>)"

definition Date_now :: "jsondb \<Rightarrow> int \<times> jsondb" where
  "Date_now s = (clock s 0, s\<lparr>clock := (\<lambda>i. clock s (Suc i))\<rparr>)"

text \<open>
  The test \<^verbatim>\<open>if (this.password)\<close>: \<^verbatim>\<open>null\<close>, \<^verbatim>\<open>undefined\<close> and the empty string are
  falsy, every other string is truthy.
\<close>

definition truthy :: "string option \<Rightarrow> string option" where
  "truthy pw = (case pw of None \<Rightarrow> None | Some w \<Rightarrow> (if w = [] then None else Some w))"

subsection \<open>Key derivation and the cipher\<close>

text \<open>
  \<^verbatim>\<open>
  _deriveKey(password, salt) {
    return pbkdf2Sync(password, salt, this.iterations, 32, this.digest);
  }
  \<close>
\<close>

definition deriveKey :: "node \<Rightarrow> jsondb \<Rightarrow> string \<Rightarrow> string \<Rightarrow> error + bytes" where
  "deriveKey P s pw salt = pbkdf2Sync P pw salt (iterations s) 32 (digest s)"

text \<open>
  \<^verbatim>\<open>
  _encryptWithKey(text, key) {
    const iv = randomBytes(12);
    const cipher = createCipheriv(this.algorithm, key, iv);
    let encrypted = cipher.update(text, "utf8");
    encrypted = Buffer.concat([encrypted, cipher.final()]);
    const authTag = cipher.getAuthTag();
    return iv.toString("hex") + ":" + authTag.toString("hex") + ":" + encrypted.toString("hex");
  }
  \<close>
\<close>

definition encryptWithKey ::
  "node \<Rightarrow> string \<Rightarrow> bytes \<Rightarrow> jsondb \<Rightarrow> (error + string) \<times> jsondb" where
  "encryptWithKey P text key s =
     (let (iv, s1) = randomBytes 12 s
      in case cipheriv P (algorithm s1) key iv text of
           Inl e \<Rightarrow> (Inl e, s1)
         | Inr (encrypted, authTag) \<Rightarrow>
             (Inr (toString_hex iv @ '':'' @ toString_hex authTag @ '':'' @
                   toString_hex encrypted), s1))"

text \<open>
  \<^verbatim>\<open>
  _decryptWithKey(encryptedText, key) {
    const parts = encryptedText.split(":");
    if (parts.length !== 3) {
      throw new Error("Invalid encrypted text format");
    }
    const iv = Buffer.from(parts[0], "hex");
    const authTag = Buffer.from(parts[1], "hex");
    const ciphertext = Buffer.from(parts[2], "hex");
    const decipher = createDecipheriv(this.algorithm, key, iv);
    decipher.setAuthTag(authTag);
    let decrypted = decipher.update(ciphertext, undefined, "utf8");
    decrypted += decipher.final("utf8");
    return decrypted;
  }
  \<close>
\<close>

definition decryptWithKey :: "node \<Rightarrow> string \<Rightarrow> bytes \<Rightarrow> jsondb \<Rightarrow> error + string" where
  "decryptWithKey P encryptedText key s =
     (let parts = split CHR '':'' encryptedText
      in if length parts \<noteq> 3 then Inl InvalidEncryptedTextFormat
         else
           (let iv = Buffer_from_hex (parts ! 0);
                authTag = Buffer_from_hex (parts ! 1);
                ciphertext = Buffer_from_hex (parts ! 2)
            in decipheriv P (algorithm s) key iv authTag ciphertext))"

subsection \<open>Reading and writing the file\<close>

text \<open>
  \<^verbatim>\<open>
  _readDB() {
    let fileData = readFileSync(this.dbFile, "utf-8");
    if (this.password) {
      const firstColon = fileData.indexOf(":");
      if (firstColon === -1) throw new Error("Invalid file format");
      const salt = fileData.substring(0, firstColon);
      const encryptedPart = fileData.substring(firstColon + 1);
      const key = this._deriveKey(this.password, salt);
      fileData = this._decryptWithKey(encryptedPart, key);
    }
    return JSON.parse(fileData);
  }
  \<close>
  Reading changes nothing: the result is a value or an error.
\<close>

definition readDB :: "node \<Rightarrow> jsondb \<Rightarrow> error + jsval" where
  "readDB P s =
     (case disk s of
        None \<Rightarrow> Inl ENOENT
      | Some fileData \<Rightarrow>
          (case truthy (password s) of
             Some pw \<Rightarrow>
               (let firstColon = indexOf fileData CHR '':''
                in if firstColon = - 1 then Inl InvalidFileFormat
                   else
                     (let salt = substring fileData 0 firstColon;
                          encryptedPart = substring_from fileData (firstColon + 1)
                      in case deriveKey P s pw salt of
                           Inl e \<Rightarrow> Inl e
                         | Inr key \<Rightarrow>
                             (case decryptWithKey P encryptedPart key s of
                                Inl e \<Rightarrow> Inl e
                              | Inr text \<Rightarrow>
                                  (case JSON_parse P text of
                                     None \<Rightarrow> Inl SyntaxError
                                   | Some data \<Rightarrow> Inr data))))
           | None \<Rightarrow>
               (case JSON_parse P fileData of
                  None \<Rightarrow> Inl SyntaxError
                | Some data \<Rightarrow> Inr data)))"

text \<open>
  \<^verbatim>\<open>
  _writeDB(data) {
    let stringData = JSON.stringify(data, null, 2);
    if (this.password) {
      const salt = randomBytes(16).toString("hex");
      const key = this._deriveKey(this.password, salt);
      const encrypted = this._encryptWithKey(stringData, key);
      const dataToStore = salt + ":" + encrypted;
      writeFileSync(this.dbFile, dataToStore);
    } else {
      writeFileSync(this.dbFile, stringData);
    }
  }
  \<close>
  Writing draws 16 bytes for the salt and then 12 for the IV; the file changes only when
  every step before \<^verbatim>\<open>writeFileSync\<close> has succeeded.
\<close>

definition writeDB :: "node \<Rightarrow> jsval \<Rightarrow> jsondb \<Rightarrow> (error + unit) \<times> jsondb" where
  "writeDB P data s =
     (let stringData = JSON_stringify P data
      in case truthy (password s) of
           Some pw \<Rightarrow>
             (let (saltBytes, s1) = randomBytes 16 s;
                  salt = toString_hex saltBytes
              in case deriveKey P s1 pw salt of
                   Inl e \<Rightarrow> (Inl e, s1)
                 | Inr key \<Rightarrow>
                     (case encryptWithKey P stringData key s1 of
                        (Inl e, s2) \<Rightarrow> (Inl e, s2)
                      | (Inr encrypted, s2) \<Rightarrow>
                          (Inr (), s2\<lparr>disk := Some (salt @ '':'' @ encrypted)\<rparr>)))
         | None \<Rightarrow> (Inr (), s\<lparr>disk := Some stringData\<rparr>))"

subsection \<open>Documents\<close>

text \<open>
  The arguments have the types of the declaration file: a document, a query and the
  updates are objects, an id is any value. An array method called on a value that is not
  an array throws.
  \<^verbatim>\<open>
  insert(document) {
    const db = this._readDB();
    document.id = Date.now(); // Simple unique ID.
    db.push(document);
    this._writeDB(db);
    return document;
  }
  \<close>
\<close>

definition insert_doc :: "node \<Rightarrow> obj \<Rightarrow> jsondb \<Rightarrow> (error + jsval) \<times> jsondb" where
  "insert_doc P document s =
     (case readDB P s of
        Inl e \<Rightarrow> (Inl e, s)
      | Inr db \<Rightarrow>
          (let (now, s1) = Date_now s;
               document' = AList.update ''id'' (JNum now) document
           in case db of
                JArr docs \<Rightarrow>
                  (case writeDB P (JArr (docs @ [JObj document'])) s1 of
                     (Inl e, s2) \<Rightarrow> (Inl e, s2)
                   | (Inr u, s2) \<Rightarrow> (Inr (JObj document'), s2))
              | _ \<Rightarrow> (Inl TypeError, s1)))"

text \<open>
  \<^verbatim>\<open>
  find(query = {}) {
    const db = this._readDB();
    return db.filter((doc) =>
      Object.keys(query).every((key) => doc[key] === query[key])
    );
  }
  \<close>
  The callback of the filter is \<open>matches\<close>: every key of the query reads the same in the
  document. A query that is not given is the empty object.
\<close>

definition matches :: "node \<Rightarrow> obj \<Rightarrow> jsval \<Rightarrow> error + bool" where
  "matches P query doc =
     everyE (\<lambda>key. case get_prop P doc key of
                      Inl e \<Rightarrow> Inl e
                    | Inr v \<Rightarrow> Inr (strict_eq v (obj_get query key)))
            (Object_keys query)"

definition find_docs :: "node \<Rightarrow> obj option \<Rightarrow> jsondb \<Rightarrow> error + jsval" where
  "find_docs P q s =
     (let query = (case q of None \<Rightarrow> [] | Some given \<Rightarrow> given)
      in case readDB P s of
           Inl e \<Rightarrow> Inl e
         | Inr db \<Rightarrow>
             (case db of
                JArr docs \<Rightarrow>
                  (case filterE (matches P query) docs of
                     Inl e \<Rightarrow> Inl e
                   | Inr found \<Rightarrow> Inr (JArr found))
              | _ \<Rightarrow> Inl TypeError))"

text \<open>
  \<^verbatim>\<open>
  update(id, updates) {
    let db = this._readDB();
    db = db.map((doc) => (doc.id === id ? { ...doc, ...updates } : doc));
    this._writeDB(db);
    return db.find((doc) => doc.id === id);
  }

  delete(id) {
    let db = this._readDB();
    const newDB = db.filter((doc) => doc.id !== id);
    this._writeDB(newDB);
    return db.length !== newDB.length;
  }
  \<close>
  The test \<^verbatim>\<open>doc.id === id\<close> is \<open>has_id\<close>, its negation \<open>lacks_id\<close>.
\<close>

definition has_id :: "node \<Rightarrow> jsval \<Rightarrow> jsval \<Rightarrow> error + bool" where
  "has_id P ident doc =
     (case get_prop P doc ''id'' of Inl e \<Rightarrow> Inl e | Inr v \<Rightarrow> Inr (strict_eq v ident))"

definition lacks_id :: "node \<Rightarrow> jsval \<Rightarrow> jsval \<Rightarrow> error + bool" where
  "lacks_id P ident doc =
     (case get_prop P doc ''id'' of Inl e \<Rightarrow> Inl e | Inr v \<Rightarrow> Inr (\<not> strict_eq v ident))"

definition update_doc :: "node \<Rightarrow> jsval \<Rightarrow> obj \<Rightarrow> jsondb \<Rightarrow> (error + jsval) \<times> jsondb" where
  "update_doc P ident updates s =
     (case readDB P s of
        Inl e \<Rightarrow> (Inl e, s)
      | Inr db \<Rightarrow>
          (case db of
             JArr docs \<Rightarrow>
               (case mapE (\<lambda>doc. case has_id P ident doc of
                                    Inl e \<Rightarrow> Inl e
                                  | Inr b \<Rightarrow> Inr (if b then spread doc updates else doc))
                          docs of
                  Inl e \<Rightarrow> (Inl e, s)
                | Inr docs' \<Rightarrow>
                    (case writeDB P (JArr docs') s of
                       (Inl e, s1) \<Rightarrow> (Inl e, s1)
                     | (Inr u, s1) \<Rightarrow>
                         (case findE (has_id P ident) docs' of
                            Inl e \<Rightarrow> (Inl e, s1)
                          | Inr r \<Rightarrow> (Inr r, s1))))
           | _ \<Rightarrow> (Inl TypeError, s)))"

definition delete_doc :: "node \<Rightarrow> jsval \<Rightarrow> jsondb \<Rightarrow> (error + bool) \<times> jsondb" where
  "delete_doc P ident s =
     (case readDB P s of
        Inl e \<Rightarrow> (Inl e, s)
      | Inr db \<Rightarrow>
          (case db of
             JArr docs \<Rightarrow>
               (case filterE (lacks_id P ident) docs of
                  Inl e \<Rightarrow> (Inl e, s)
                | Inr newDB \<Rightarrow>
                    (case writeDB P (JArr newDB) s of
                       (Inl e, s1) \<Rightarrow> (Inl e, s1)
                     | (Inr u, s1) \<Rightarrow> (Inr (length docs \<noteq> length newDB), s1)))
           | _ \<Rightarrow> (Inl TypeError, s)))"

subsection \<open>Changing the password\<close>

text \<open>
  \<^verbatim>\<open>
  changePassword(payload) {
    const oldPassword = payload?.oldPassword;
    const newPassword = payload?.newPassword;
    const currentPassword = this.password;
    this.password = oldPassword;
    let data;
    try {
      data = this._readDB();
    } catch (err) {
      this.password = currentPassword;
      throw new Error("Invalid old password. Password change aborted.");
    }
    this.password = newPassword;
    this._writeDB(data);
  }
  \<close>
  The payload is optional, and so is each of its fields.
\<close>

record payload =
  oldPassword :: "string option"
  newPassword :: "string option"

definition optional_oldPassword :: "payload option \<Rightarrow> string option" where
  "optional_oldPassword pl = (case pl of None \<Rightarrow> None | Some p \<Rightarrow> oldPassword p)"

definition optional_newPassword :: "payload option \<Rightarrow> string option" where
  "optional_newPassword pl = (case pl of None \<Rightarrow> None | Some p \<Rightarrow> newPassword p)"

definition changePassword ::
  "node \<Rightarrow> payload option \<Rightarrow> jsondb \<Rightarrow> (error + unit) \<times> jsondb" where
  "changePassword P pl s =
     (let oldPw = optional_oldPassword pl;
          newPw = optional_newPassword pl;
          currentPassword = password s;
          s1 = s\<lparr>password := oldPw\<rparr>
      in case readDB P s1 of
           Inl err \<Rightarrow> (Inl InvalidOldPassword, s1\<lparr>password := currentPassword\<rparr>)
         | Inr data \<Rightarrow> writeDB P data (s1\<lparr>password := newPw\<rparr>))"

section \<open>A platform to run the model on\<close>

text \<open>
  The theorems below hold for every platform that meets the contract they name. To run
  the model on concrete files, and to show that the contracts can be met, this section
  gives one executable platform: a JSON printer and reader for the values of the model,
  and a transparent stand-in for the key derivation and the cipher.
\<close>

subsection \<open>JSON text\<close>

definition newline :: string where
  "newline = [char_of (10 :: nat)]"

fun join :: "string \<Rightarrow> string list \<Rightarrow> string" where
  "join sep [] = []"
| "join sep [x] = x"
| "join sep (x # y # ys) = x @ sep @ join sep (y # ys)"

definition show_int :: "int \<Rightarrow> string" where
  "show_int i = (if i < 0 then ''-'' @ decimal (nat (- i)) else decimal (nat i))"

definition escape_char :: "char \<Rightarrow> string" where
  "escape_char c =
     (let n = (of_char c :: nat)
      in if n = 34 then [char_of (92 :: nat), c]
         else if n = 92 then [c, c]
         else if n = 8 then [char_of (92 :: nat), CHR ''b'']
         else if n = 12 then [char_of (92 :: nat), CHR ''f'']
         else if n = 10 then [char_of (92 :: nat), CHR ''n'']
         else if n = 13 then [char_of (92 :: nat), CHR ''r'']
         else if n = 9 then [char_of (92 :: nat), CHR ''t'']
         else if n < 32 then
           [char_of (92 :: nat), CHR ''u'', CHR ''0'', CHR ''0'',
            hex_digit (n div 16), hex_digit (n mod 16)]
         else [c])"

definition quote :: "string \<Rightarrow> string" where
  "quote str = [char_of (34 :: nat)] @ concat (map escape_char str) @ [char_of (34 :: nat)]"

text \<open>
  \<^verbatim>\<open>JSON.stringify(data, null, 2)\<close>: two spaces for each level; an empty array or object
  on one line; \<^verbatim>\<open>undefined\<close> and a function printed as \<^verbatim>\<open>null\<close> inside an array and left
  out, with the key, inside an object. Every \<open>JNative\<close> is printed as a function is. The
  first argument is the indentation of the enclosing level.
\<close>

fun omitted :: "jsval \<Rightarrow> bool" where
  "omitted JUndefined = True"
| "omitted (JNative n) = True"
| "omitted _ = False"

fun stringify :: "string \<Rightarrow> jsval \<Rightarrow> string"
  and stringify_items :: "string \<Rightarrow> jsval list \<Rightarrow> string list"
  and stringify_props :: "string \<Rightarrow> (string \<times> jsval) list \<Rightarrow> string list" where
  "stringify ind JUndefined = ''null''"
| "stringify ind (JNative n) = ''null''"
| "stringify ind JNull = ''null''"
| "stringify ind (JBool b) = (if b then ''true'' else ''false'')"
| "stringify ind (JNum i) = show_int i"
| "stringify ind (JStr str) = quote str"
| "stringify ind (JArr xs) =
     (if xs = [] then ''[]''
      else ''['' @ newline @ join ('','' @ newline) (stringify_items (ind @ ''  '') xs)
           @ newline @ ind @ '']'')"
| "stringify ind (JObj kvs) =
     (let ps = stringify_props (ind @ ''  '') kvs
      in if ps = [] then ''{}''
         else ''{'' @ newline @ join ('','' @ newline) ps @ newline @ ind @ ''}'')"
| "stringify_items ind [] = []"
| "stringify_items ind (x # xs) = (ind @ stringify ind x) # stringify_items ind xs"
| "stringify_props ind [] = []"
| "stringify_props ind (kv # kvs) =
     (if omitted (snd kv) then stringify_props ind kvs
      else (ind @ quote (fst kv) @ '': '' @ stringify ind (snd kv)) # stringify_props ind kvs)"

text \<open>
  The reader is a recursive descent over the text, with the number of nested calls
  bounded by a counter; the length of the text is always enough. It reads what the
  printer writes and the rest of JSON that the model has values for: numbers with a
  fraction or an exponent and \<^verbatim>\<open>\u\<close> escapes beyond ASCII are refused. A key that occurs
  twice keeps its first place and its last value, as in \<^verbatim>\<open>JSON.parse\<close>.
\<close>

definition is_ws :: "char \<Rightarrow> bool" where
  "is_ws c = (of_char c \<in> {32, 10, 13, 9 :: nat})"

definition skip_ws :: "string \<Rightarrow> string" where
  "skip_ws str = dropWhile is_ws str"

definition is_digit :: "char \<Rightarrow> bool" where
  "is_digit c = (48 \<le> (of_char c :: nat) \<and> (of_char c :: nat) \<le> 57)"

definition digits_value :: "string \<Rightarrow> nat" where
  "digits_value ds = foldl (\<lambda>acc d. 10 * acc + (of_char d - 48)) 0 ds"

definition read_number :: "string \<Rightarrow> (jsval \<times> string) option" where
  "read_number str =
     (let neg = (take 1 str = ''-'');
          body = (if neg then drop 1 str else str);
          ds = takeWhile is_digit body;
          rest = dropWhile is_digit body
      in if ds = [] \<or> (length ds > 1 \<and> hd ds = CHR ''0'') then None
         else if rest \<noteq> [] \<and> hd rest \<in> {CHR ''.'', CHR ''e'', CHR ''E''} then None
         else Some (JNum (if neg then - int (digits_value ds) else int (digits_value ds)), rest))"

text \<open>The four digits of a \<^verbatim>\<open>\u\<close> escape, when they name an ASCII character.\<close>

definition ascii_escape :: "string \<Rightarrow> char option" where
  "ascii_escape ds =
     (if length ds = 4 \<and> take 2 ds = ''00'' then
        (case hex_value (ds ! 2) of
           None \<Rightarrow> None
         | Some h \<Rightarrow>
             (case hex_value (ds ! 3) of
                None \<Rightarrow> None
              | Some l \<Rightarrow> (if h < 8 then Some (char_of (16 * h + l)) else None)))
      else None)"

text \<open>The characters of a string literal after its opening quote, and what follows it.\<close>

fun read_string :: "string \<Rightarrow> (string \<times> string) option" where
  "read_string [] = None"
| "read_string (c # cs) =
     (if of_char c = (34 :: nat) then Some ([], cs)
      else if of_char c = (92 :: nat) then
        (case cs of
           [] \<Rightarrow> None
         | e # es \<Rightarrow>
             (if e = CHR ''u'' then
                (case ascii_escape (take 4 es) of
                   None \<Rightarrow> None
                 | Some x \<Rightarrow>
                     (case read_string (drop 4 es) of
                        None \<Rightarrow> None
                      | Some (str, rest) \<Rightarrow> Some (x # str, rest)))
              else
                (case (if of_char e = (34 :: nat) \<or> of_char e = (92 :: nat) \<or> e = CHR ''/''
                       then Some e
                       else if e = CHR ''b'' then Some (char_of (8 :: nat))
                       else if e = CHR ''f'' then Some (char_of (12 :: nat))
                       else if e = CHR ''n'' then Some (char_of (10 :: nat))
                       else if e = CHR ''r'' then Some (char_of (13 :: nat))
                       else if e = CHR ''t'' then Some (char_of (9 :: nat))
                       else None) of
                   None \<Rightarrow> None
                 | Some x \<Rightarrow>
                     (case read_string es of
                        None \<Rightarrow> None
                      | Some (str, rest) \<Rightarrow> Some (x # str, rest)))))
      else if (of_char c :: nat) < 32 then None
      else (case read_string cs of
              None \<Rightarrow> None
            | Some (str, rest) \<Rightarrow> Some (c # str, rest)))"

text \<open>
  The pieces between values: a literal that is not an array or an object; the character
  that follows a value; a key with its colon.
\<close>

definition read_atom :: "string \<Rightarrow> (jsval \<times> string) option" where
  "read_atom t =
     (if take 4 t = ''null'' then Some (JNull, drop 4 t)
      else if take 4 t = ''true'' then Some (JBool True, drop 4 t)
      else if take 5 t = ''false'' then Some (JBool False, drop 5 t)
      else if take 1 t = [char_of (34 :: nat)] then
        (case read_string (drop 1 t) of
           None \<Rightarrow> None
         | Some (str, rest) \<Rightarrow> Some (JStr str, rest))
      else read_number t)"

definition next_char :: "string \<Rightarrow> (char \<times> string) option" where
  "next_char str = (case skip_ws str of [] \<Rightarrow> None | c # rest \<Rightarrow> Some (c, rest))"

definition read_key :: "string \<Rightarrow> (string \<times> string) option" where
  "read_key str =
     (case next_char str of
        None \<Rightarrow> None
      | Some (c, rest) \<Rightarrow>
          (if of_char c = (34 :: nat) then
             (case read_string rest of
                None \<Rightarrow> None
              | Some (key, rest1) \<Rightarrow>
                  (case next_char rest1 of
                     None \<Rightarrow> None
                   | Some (d, rest2) \<Rightarrow> (if d = CHR '':'' then Some (key, rest2) else None)))
           else None))"

fun read_value :: "nat \<Rightarrow> string \<Rightarrow> (jsval \<times> string) option"
  and read_items :: "nat \<Rightarrow> jsval list \<Rightarrow> string \<Rightarrow> (jsval \<times> string) option"
  and read_props :: "nat \<Rightarrow> obj \<Rightarrow> string \<Rightarrow> (jsval \<times> string) option" where
  "read_value 0 str = None"
| "read_value (Suc n) str =
     (case next_char str of
        None \<Rightarrow> None
      | Some (c, rest) \<Rightarrow>
          (if c = CHR ''['' then
             (case next_char rest of
                None \<Rightarrow> None
              | Some (d, rest1) \<Rightarrow>
                  (if d = CHR '']'' then Some (JArr [], rest1) else read_items n [] rest))
           else if c = CHR ''{'' then
             (case next_char rest of
                None \<Rightarrow> None
              | Some (d, rest1) \<Rightarrow>
                  (if d = CHR ''}'' then Some (JObj [], rest1) else read_props n [] rest))
           else read_atom (c # rest)))"
| "read_items 0 acc str = None"
| "read_items (Suc n) acc str =
     (case read_value n str of
        None \<Rightarrow> None
      | Some (v, rest) \<Rightarrow>
          (case next_char rest of
             None \<Rightarrow> None
           | Some (c, rest1) \<Rightarrow>
               (if c = CHR '','' then read_items n (acc @ [v]) rest1
                else if c = CHR '']'' then Some (JArr (acc @ [v]), rest1)
                else None)))"
| "read_props 0 acc str = None"
| "read_props (Suc n) acc str =
     (case read_key str of
        None \<Rightarrow> None
      | Some (key, rest) \<Rightarrow>
          (case read_value n rest of
             None \<Rightarrow> None
           | Some (v, rest1) \<Rightarrow>
               (case next_char rest1 of
                  None \<Rightarrow> None
                | Some (c, rest2) \<Rightarrow>
                    (if c = CHR '','' then read_props n (AList.update key v acc) rest2
                     else if c = CHR ''}'' then Some (JObj (AList.update key v acc), rest2)
                     else None))))"

definition parse :: "string \<Rightarrow> jsval option" where
  "parse text =
     (case read_value (Suc (length text)) text of
        None \<Rightarrow> None
      | Some (v, rest) \<Rightarrow> (if skip_ws rest = [] then Some v else None))"

subsection \<open>A transparent cipher\<close>

text \<open>
  The stand-in derives the key by spelling out salt and password, masks each byte of the
  text with a byte computed from the key, and uses key and ciphertext, spelled out, as the
  tag. It keeps nothing secret. What it shares with an authenticated cipher is what the
  theorems assume: decryption inverts encryption, and a tag that differs from the one
  computed is rejected.
\<close>

definition utf8_bytes :: "string \<Rightarrow> bytes" where
  "utf8_bytes text = map (\<lambda>c. word_of_nat (of_char c)) text"

definition utf8_text :: "bytes \<Rightarrow> string" where
  "utf8_text bs = map (\<lambda>b. char_of (unat b)) bs"

definition pad_byte :: "bytes \<Rightarrow> 8 word" where
  "pad_byte key = fold (+) key 0"

definition toy_pbkdf2 :: "string \<Rightarrow> string \<Rightarrow> nat \<Rightarrow> nat \<Rightarrow> string \<Rightarrow> error + bytes" where
  "toy_pbkdf2 pw salt iters keylen dig = Inr (utf8_bytes (salt @ pw))"

definition toy_cipher :: "string \<Rightarrow> bytes \<Rightarrow> bytes \<Rightarrow> string \<Rightarrow> error + bytes \<times> bytes" where
  "toy_cipher alg key iv text =
     (let encrypted = map (\<lambda>b. xor (pad_byte key) b) (utf8_bytes text)
      in Inr (encrypted, key @ encrypted))"

definition toy_decipher :: "string \<Rightarrow> bytes \<Rightarrow> bytes \<Rightarrow> bytes \<Rightarrow> bytes \<Rightarrow> error + string" where
  "toy_decipher alg key iv authTag ciphertext =
     (if authTag = key @ ciphertext
      then Inr (utf8_text (map (\<lambda>b. xor (pad_byte key) b) ciphertext))
      else Inl AuthenticationFailed)"

text \<open>
  The names that \<^verbatim>\<open>Object.prototype\<close> has. The stand-in knows this prototype only, the
  one of documents, and nothing of the prototypes of arrays, strings, numbers and
  booleans.
\<close>

definition Object_prototype :: "string list" where
  "Object_prototype =
     [''constructor'', ''__defineGetter__'', ''__defineSetter__'', ''hasOwnProperty'',
      ''__lookupGetter__'', ''__lookupSetter__'', ''isPrototypeOf'',
      ''propertyIsEnumerable'', ''toString'', ''valueOf'', ''__proto__'',
      ''toLocaleString'']"

definition toy_inherited :: "proto \<Rightarrow> string \<Rightarrow> jsval option" where
  "toy_inherited p key =
     (if p = ObjectProto \<and> key \<in> set Object_prototype
      then Some (JNative (''Object.prototype.'' @ key))
      else None)"

definition toy_node :: node where
  "toy_node =
     \<lparr> JSON_stringify = stringify [],
       JSON_parse = parse,
       pbkdf2Sync = toy_pbkdf2,
       cipheriv = toy_cipher,
       decipheriv = toy_decipher,
       inherited = toy_inherited \<rparr>"

section \<open>Contracts of the platform\<close>

text \<open>
  What the theorems assume of the runtime, each where it says so.
  \<open>cipher_inverts\<close> is the correctness of the cipher: what it encrypts, it decrypts under
  the same key and IV. \<open>tag_verified\<close> is the comparison of tags at decryption: with
  key, IV and ciphertext as they were at encryption, a tag of the length of the computed
  tag that differs from it is rejected with the authentication failure. Nothing is
  assumed about tags of another length, about other ciphertexts or about other keys.
  \<open>unpolluted\<close> says that \<^verbatim>\<open>Object.prototype\<close> holds only what the runtime put there.
\<close>

definition cipher_inverts :: "node \<Rightarrow> bool" where
  "cipher_inverts P \<longleftrightarrow>
     (\<forall>alg key iv text ct tag.
        cipheriv P alg key iv text = Inr (ct, tag) \<longrightarrow>
        decipheriv P alg key iv tag ct = Inr text)"


fun is_native :: "jsval \<Rightarrow> bool" where
  "is_native (JNative n) = True"
| "is_native _ = False"

definition unpolluted :: "node \<Rightarrow> bool" where
  "unpolluted P \<longleftrightarrow> (\<forall>key v. inherited P ObjectProto key = Some v \<longrightarrow> is_native v)"

section \<open>Vocabulary of the properties\<close>




text \<open>
  A query holds of a document when each of its fields reads, in the document, strictly
  equal to the expected value: the field is present with such a value, or is absent and
  inherited with such a value, or is neither and the expected value is \<^verbatim>\<open>undefined\<close>.
\<close>

definition query_holds :: "node \<Rightarrow> obj \<Rightarrow> obj \<Rightarrow> bool" where
  "query_holds P query doc =
     list_all (\<lambda>key. case map_of doc key of
                        Some x \<Rightarrow> strict_eq x (obj_get query key)
                      | None \<Rightarrow>
                          (case inherited P ObjectProto key of
                             Some b \<Rightarrow> strict_eq b (obj_get query key)
                           | None \<Rightarrow> obj_get query key = JUndefined))
              (Object_keys query)"

text \<open>The reading of the claim: each field of the query is present and strictly equal.\<close>

definition present_and_equal :: "obj \<Rightarrow> obj \<Rightarrow> bool" where
  "present_and_equal query doc =
     list_all (\<lambda>key. case map_of doc key of
                        Some x \<Rightarrow> strict_eq x (obj_get query key)
                      | None \<Rightarrow> False)
              (Object_keys query)"

text \<open>
  What \<^verbatim>\<open>doc[key]\<close> reads in a document. A document carries the id \<open>ident\<close> when its
  \<^verbatim>\<open>id\<close> reads strictly equal to it. No two documents of a store share an id: the
  invariant of the specification, about the ids that the documents hold themselves.
\<close>

definition read_field :: "node \<Rightarrow> obj \<Rightarrow> string \<Rightarrow> jsval" where
  "read_field P doc key =
     (case map_of doc key of
        Some x \<Rightarrow> x
      | None \<Rightarrow> (case inherited P ObjectProto key of Some b \<Rightarrow> b | None \<Rightarrow> JUndefined))"

definition carries :: "node \<Rightarrow> jsval \<Rightarrow> obj \<Rightarrow> bool" where
  "carries P ident doc = strict_eq (read_field P doc ''id'') ident"

fun unique_ids :: "obj list \<Rightarrow> bool" where
  "unique_ids [] = True"
| "unique_ids (d # ds) =
     (list_all (\<lambda>e. \<not> strict_eq (obj_get e ''id'') (obj_get d ''id'')) ds \<and> unique_ids ds)"

section \<open>Sample stores\<close>

text \<open>
  A configuration with the defaults of the constructor, an entropy stream, and a clock
  that gives each reading twice (two calls within one millisecond).
\<close>

definition sample_config :: jsondb where
  "sample_config =
     \<lparr> password = None, iterations = 100000, digest = ''sha256'',
       algorithm = ''aes-256-gcm'', disk = None,
       entropy = (\<lambda>i. word_of_nat (7 * i + 3)),
       clock = (\<lambda>i. 1700000000000 + int (i div 2)) \<rparr>"

text \<open>The store as the program writes it, without a password and under one.\<close>

definition plain_store :: "jsval \<Rightarrow> jsondb" where
  "plain_store data = snd (writeDB toy_node data sample_config)"

definition locked_store :: "string \<Rightarrow> jsval \<Rightarrow> jsondb" where
  "locked_store pw data = snd (writeDB toy_node data (sample_config\<lparr>password := Some pw\<rparr>))"

definition alice_bob :: jsval where
  "alice_bob =
     JArr [JObj [(''id'', JNum 1), (''name'', JStr ''Alice''), (''age'', JNum 25)],
           JObj [(''id'', JNum 2), (''name'', JStr ''Bob'')]]"

section \<open>Facts about strings and buffers\<close>

lemma hex_digit_cases:
  assumes "n < 16"
  shows "hex_value (hex_digit n) = Some n \<and> hex_digit n \<noteq> CHR '':''"
proof -
  from assms have "n \<in> {0, 1, 2, 3, 4, 5, 6, 7, 8, 9, 10, 11, 12, 13, 14, 15}"
    by (simp add: insert_iff) arith
  then show ?thesis
    by (auto simp: hex_digit_def hex_value_def)
qed

lemma byte_split: "word_of_nat (16 * (unat b div 16) + unat b mod 16) = (b :: 8 word)"
  by simp

lemma Buffer_from_hex_toString_hex: "Buffer_from_hex (toString_hex bs) = bs"
proof (induction bs)
  case Nil
  then show ?case by (simp add: toString_hex_def)
next
  case (Cons b bs)
  have d: "unat b div 16 < 16" using unsigned_less [of b, where 'a = nat] by (simp add: div_less_iff_less_mult) 
  have m: "unat b mod 16 < 16" by simp
  show ?case
    using Cons hex_digit_cases [OF d] hex_digit_cases [OF m]
    by (simp add: toString_hex_def hex_of_byte_def)
qed

lemma colon_notin_hex: "CHR '':'' \<notin> set (toString_hex bs)"
proof (induction bs)
  case Nil
  then show ?case by (simp add: toString_hex_def)
next
  case (Cons b bs)
  have d: "unat b div 16 < 16" using unsigned_less [of b, where 'a = nat] by (simp add: div_less_iff_less_mult) 
  have m: "unat b mod 16 < 16" by simp
  show ?case
    using Cons hex_digit_cases [OF d] hex_digit_cases [OF m]
    by (auto simp add: toString_hex_def hex_of_byte_def)
qed

lemma indexOf_none: "c \<notin> set str \<Longrightarrow> indexOf str c = - 1"
  by (induction str) (auto simp: Let_def)

lemma indexOf_nonneg: "c \<in> set str \<Longrightarrow> 0 \<le> indexOf str c"
  by (induction str) (auto simp: Let_def)

lemma indexOf_first: "c \<notin> set a \<Longrightarrow> indexOf (a @ c # rest) c = int (length a)"
  by (induction a) (auto simp: Let_def)

lemma substring_prefix: "substring (a @ c # rest) 0 (int (length a)) = a"
  by (simp add: substring_def Let_def min_def max_def)

lemma substring_from_suffix: "substring_from (a @ c # rest) (int (length a) + 1) = rest"
proof -
  have "nat (int (length a) + 1) = Suc (length a)" by simp
  then show ?thesis
    by (simp add: substring_from_def substring_def Let_def min_def max_def)
qed

lemma split_none: "c \<notin> set a \<Longrightarrow> split c a = [a]"
  by (induction a) auto

lemma split_first: "c \<notin> set a \<Longrightarrow> split c (a @ c # rest) = a # split c rest"
  by (induction a) auto

lemma split_nonempty: "split c str \<noteq> []"
  by (induction str) (auto split: list.splits)

section \<open>Reading and writing\<close>

lemma decryptWithKey_parts:
  assumes "CHR '':'' \<notin> set a" "CHR '':'' \<notin> set b" "CHR '':'' \<notin> set c"
  shows "decryptWithKey P (a @ CHR '':'' # b @ CHR '':'' # c) key s =
         decipheriv P (algorithm s) key (Buffer_from_hex a) (Buffer_from_hex b) (Buffer_from_hex c)"
proof -
  have "split CHR '':'' (a @ CHR '':'' # b @ CHR '':'' # c) = [a, b, c]"
    using assms by (simp add: split_first split_none)
  then show ?thesis
    by (simp add: decryptWithKey_def)
qed

lemma readDB_envelope:
  assumes pw: "truthy (password s) = Some pw"
    and d: "disk s = Some (salt @ CHR '':'' # rest)"
    and salt: "CHR '':'' \<notin> set salt"
  shows "readDB P s =
         (case deriveKey P s pw salt of
            Inl e \<Rightarrow> Inl e
          | Inr key \<Rightarrow>
              (case decryptWithKey P rest key s of
                 Inl e \<Rightarrow> Inl e
               | Inr text \<Rightarrow>
                   (case JSON_parse P text of None \<Rightarrow> Inl SyntaxError | Some data \<Rightarrow> Inr data)))"
proof -
  have i: "indexOf (salt @ CHR '':'' # rest) CHR '':'' = int (length salt)"
    using salt by (simp add: indexOf_first)
  have a: "substring (salt @ CHR '':'' # rest) 0 (int (length salt)) = salt"
    by (rule substring_prefix)
  have b: "substring_from (salt @ CHR '':'' # rest) (int (length salt) + 1) = rest"
    by (rule substring_from_suffix)
  show ?thesis
    unfolding readDB_def by (simp only: d pw i a b option.case Let_def) simp
qed

lemma writeDB_plain:
  assumes "truthy (password s) = None"
  shows "writeDB P S s = (Inr (), s\<lparr>disk := Some (JSON_stringify P S)\<rparr>)"
  using assms by (simp add: writeDB_def)

lemma writeDB_locked:
  assumes pw: "truthy (password s) = Some pw"
    and w: "writeDB P S s = (Inr (), s')"
  shows "\<exists>key ct tag.
           deriveKey P s pw (toString_hex (map (entropy s) [0..<16])) = Inr key \<and>
           cipheriv P (algorithm s) key (map (\<lambda>i. entropy s (i + 16)) [0..<12])
             (JSON_stringify P S) = Inr (ct, tag) \<and>
           s' = s\<lparr>entropy := (\<lambda>i. entropy s (i + 12 + 16)),
                  disk := Some (toString_hex (map (entropy s) [0..<16]) @ '':'' @
                    toString_hex (map (\<lambda>i. entropy s (i + 16)) [0..<12]) @ '':'' @
                    toString_hex tag @ '':'' @ toString_hex ct)\<rparr>"
  using w pw
  by (auto simp: writeDB_def encryptWithKey_def randomBytes_def deriveKey_def Let_def
           split: sum.splits prod.splits)

lemma writeDB_config:
  "password (snd (writeDB P S s)) = password s \<and>
   iterations (snd (writeDB P S s)) = iterations s \<and>
   digest (snd (writeDB P S s)) = digest s \<and>
   algorithm (snd (writeDB P S s)) = algorithm s \<and>
   clock (snd (writeDB P S s)) = clock s"
  by (simp add: writeDB_def encryptWithKey_def randomBytes_def Let_def
           split: option.splits sum.splits prod.splits)

lemma deriveKey_config:
  "iterations t = iterations s \<Longrightarrow> digest t = digest s \<Longrightarrow>
   deriveKey P t pw salt = deriveKey P s pw salt"
  by (simp add: deriveKey_def)

lemma read_after_write:
  assumes inv: "cipher_inverts P"
    and json: "JSON_parse P (JSON_stringify P S) = Some S"
    and w: "writeDB P S s = (Inr u, s')"
  shows "readDB P s' = Inr S"
proof (cases "truthy (password s)")
  case None
  then show ?thesis
    using json w by (auto simp: writeDB_plain readDB_def)
next
  case (Some pw)
  from w have w': "writeDB P S s = (Inr (), s')" by simp
  from writeDB_locked [OF Some w'] obtain key ct tag where
    k: "deriveKey P s pw (toString_hex (map (entropy s) [0..<16])) = Inr key" and
    c: "cipheriv P (algorithm s) key (map (\<lambda>i. entropy s (i + 16)) [0..<12])
          (JSON_stringify P S) = Inr (ct, tag)" and
    s': "s' = s\<lparr>entropy := (\<lambda>i. entropy s (i + 12 + 16)),
              disk := Some (toString_hex (map (entropy s) [0..<16]) @ '':'' @
                toString_hex (map (\<lambda>i. entropy s (i + 16)) [0..<12]) @ '':'' @
                toString_hex tag @ '':'' @ toString_hex ct)\<rparr>"
    by blast
  have pw': "truthy (password s') = Some pw" using Some s' by simp
  have d: "disk s' = Some (toString_hex (map (entropy s) [0..<16]) @ CHR '':'' #
                (toString_hex (map (\<lambda>i. entropy s (i + 16)) [0..<12]) @ CHR '':'' #
                toString_hex tag @ CHR '':'' # toString_hex ct))"
    using s' by simp
  have k': "deriveKey P s' pw (toString_hex (map (entropy s) [0..<16])) = Inr key"
    using k s' by (simp add: deriveKey_def)
  have dec: "decipheriv P (algorithm s) key (map (\<lambda>i. entropy s (i + 16)) [0..<12]) tag ct
             = Inr (JSON_stringify P S)"
    using inv c unfolding cipher_inverts_def by blast
  have a: "algorithm s' = algorithm s" using s' by simp
  show ?thesis
    unfolding readDB_envelope [OF pw' d colon_notin_hex]
    by (simp add: k' decryptWithKey_parts colon_notin_hex Buffer_from_hex_toString_hex
          a dec json)
qed




text \<open>An envelope that the program wrote under a password, taken apart.\<close>

lemma locked_envelope:
  assumes pw: "truthy (password s) = Some pw"
    and w: "writeDB P S s = (Inr (), s')"
  shows "\<exists>salt iv key ct tag.
           CHR '':'' \<notin> set salt \<and>
           deriveKey P s' pw salt = Inr key \<and>
           cipheriv P (algorithm s') key iv (JSON_stringify P S) = Inr (ct, tag) \<and>
           truthy (password s') = Some pw \<and>
           disk s' = Some (salt @ CHR '':'' # toString_hex iv @ CHR '':'' #
                            toString_hex tag @ CHR '':'' # toString_hex ct)"
proof -
  from writeDB_locked [OF pw w] obtain key ct tag where
    k: "deriveKey P s pw (toString_hex (map (entropy s) [0..<16])) = Inr key" and
    c: "cipheriv P (algorithm s) key (map (\<lambda>i. entropy s (i + 16)) [0..<12])
          (JSON_stringify P S) = Inr (ct, tag)" and
    s': "s' = s\<lparr>entropy := (\<lambda>i. entropy s (i + 12 + 16)),
              disk := Some (toString_hex (map (entropy s) [0..<16]) @ '':'' @
                toString_hex (map (\<lambda>i. entropy s (i + 16)) [0..<12]) @ '':'' @
                toString_hex tag @ '':'' @ toString_hex ct)\<rparr>"
    by blast
  have "deriveKey P s' pw (toString_hex (map (entropy s) [0..<16])) = Inr key"
    using k s' by (simp add: deriveKey_def)
  moreover have "cipheriv P (algorithm s') key (map (\<lambda>i. entropy s (i + 16)) [0..<12])
      (JSON_stringify P S) = Inr (ct, tag)"
    using c s' by simp
  moreover have "truthy (password s') = Some pw" using pw s' by simp
  moreover have "disk s' = Some (toString_hex (map (entropy s) [0..<16]) @ CHR '':'' #
      toString_hex (map (\<lambda>i. entropy s (i + 16)) [0..<12]) @ CHR '':'' #
      toString_hex tag @ CHR '':'' # toString_hex ct)"
    using s' by simp
  ultimately show ?thesis
    using colon_notin_hex by blast
qed



lemma writeDB_password: "password (snd (writeDB P S s)) = password s"
  using writeDB_config [of P S s] by simp

section \<open>The executable platform meets the contracts\<close>

lemma utf8_round: "utf8_text (utf8_bytes text) = text"
proof -
  have "char_of (unat (word_of_nat (of_char c) :: 8 word)) = c" for c
    by (simp add: unat_of_nat char_of_mod_256 [simplified])
  then show ?thesis
    by (simp add: utf8_text_def utf8_bytes_def map_idI)
qed

lemma utf8_bytes_inj: "utf8_bytes a = utf8_bytes b \<Longrightarrow> a = b"
  by (metis utf8_round)

lemma unmask: "xor (m :: 8 word) \<circ> xor m = id"
  by (simp add: fun_eq_iff)

lemma toy_inverts: "cipher_inverts toy_node"
  by (auto simp: cipher_inverts_def toy_node_def toy_cipher_def toy_decipher_def Let_def
        unmask utf8_round)


lemma toy_writes: "fst (writeDB toy_node S s) = Inr ()"
  by (simp add: writeDB_def toy_node_def deriveKey_def toy_pbkdf2_def encryptWithKey_def
        toy_cipher_def randomBytes_def Let_def split: option.splits)

lemma locked_store_written:
  "writeDB toy_node S (sample_config\<lparr>password := Some pw\<rparr>) = (Inr (), locked_store pw S)"
  using toy_writes [of S "sample_config\<lparr>password := Some pw\<rparr>"]
  by (simp add: locked_store_def prod_eq_iff)

lemma plain_store_written:
  "writeDB toy_node S sample_config = (Inr (), plain_store S)"
  using toy_writes [of S sample_config]
  by (simp add: plain_store_def prod_eq_iff)

lemma toy_wrong_password:
  assumes "pw \<noteq> []" "pw' \<noteq> []" "pw' \<noteq> pw"
  shows "readDB toy_node ((locked_store pw S)\<lparr>password := Some pw'\<rparr>) = Inl AuthenticationFailed"
proof -
  let ?s' = "locked_store pw S"
  let ?t = "?s'\<lparr>password := Some pw'\<rparr>"
  have pw: "truthy (password (sample_config\<lparr>password := Some pw\<rparr>)) = Some pw"
    using assms(1) by (simp add: truthy_def)
  from locked_envelope [OF pw locked_store_written] obtain salt iv key ct tag where
    salt: "CHR '':'' \<notin> set salt" and
    k: "deriveKey toy_node ?s' pw salt = Inr key" and
    c: "cipheriv toy_node (algorithm ?s') key iv (JSON_stringify toy_node S) = Inr (ct, tag)" and
    d: "disk ?s' = Some (salt @ CHR '':'' # toString_hex iv @ CHR '':'' #
                         toString_hex tag @ CHR '':'' # toString_hex ct)"
    by blast
  from k have key: "key = utf8_bytes (salt @ pw)"
    by (simp add: deriveKey_def toy_node_def toy_pbkdf2_def)
  from c have tag: "tag = key @ ct"
    by (auto simp: toy_node_def toy_cipher_def Let_def)
  have t: "truthy (password ?t) = Some pw'" using assms(2) by (simp add: truthy_def)
  have d': "disk ?t = Some (salt @ CHR '':'' # toString_hex iv @ CHR '':'' #
                         toString_hex tag @ CHR '':'' # toString_hex ct)"
    using d by simp
  have k': "deriveKey toy_node ?t pw' salt = Inr (utf8_bytes (salt @ pw'))"
    by (simp add: deriveKey_def toy_node_def toy_pbkdf2_def)
  have ne: "utf8_bytes (salt @ pw') \<noteq> utf8_bytes (salt @ pw)"
    using assms(3) utf8_bytes_inj [of "salt @ pw'" "salt @ pw"] by auto
  have "decipheriv toy_node (algorithm ?t) (utf8_bytes (salt @ pw')) iv tag ct
        = Inl AuthenticationFailed"
    using ne by (simp add: toy_node_def toy_decipher_def tag key)
  then show ?thesis
    unfolding readDB_envelope [OF t d' salt]
    by (simp add: k' decryptWithKey_parts colon_notin_hex Buffer_from_hex_toString_hex)
qed


lemma readDB_depends:
  assumes "password t = password s" "iterations t = iterations s" "digest t = digest s"
    "algorithm t = algorithm s" "disk t = disk s"
  shows "readDB P t = readDB P s"
proof -
  have 1: "deriveKey P t = deriveKey P s"
    by (simp add: fun_eq_iff deriveKey_def assms)
  have 2: "decryptWithKey P x k t = decryptWithKey P x k s" for x k
    by (simp add: decryptWithKey_def Let_def assms)
  show ?thesis
    unfolding readDB_def by (simp only: assms 1 2)
qed



lemma alice_bob_json: "JSON_parse toy_node (JSON_stringify toy_node alice_bob) = Some alice_bob"
  by code_simp

lemma locked_alice_bob_read: "readDB toy_node (locked_store ''old'' alice_bob) = Inr alice_bob"
  by (rule read_after_write [OF toy_inverts alice_bob_json locked_store_written])

section \<open>The password change\<close>

text \<open>
  Claim C1. \<^verbatim>\<open>changePassword\<close> is all-or-nothing. Whatever the state of the store, if
  decoding the file under the supplied old password fails, for any reason, the call
  fails with the error "Invalid old password", an authentication error, and leaves the
  state as it was: the active password is the one held before the call and the file is
  untouched, so that any handle opened afterwards on the file with the original
  configuration reads what the original read. If decoding succeeds, and only then, the
  call adopts the new password and re-encodes and writes the decoded store.
\<close>

theorem changePassword_all_or_nothing:
  "(\<forall>err. readDB P (s\<lparr>password := optional_oldPassword pl\<rparr>) = Inl err \<longrightarrow>
      changePassword P pl s = (Inl InvalidOldPassword, s) \<and>
      kind_of InvalidOldPassword = AuthenticationError \<and>
      (\<forall>t. password t = password s \<and> iterations t = iterations s \<and>
           digest t = digest s \<and> algorithm t = algorithm s \<and>
           disk t = disk (snd (changePassword P pl s)) \<longrightarrow>
         readDB P t = readDB P s)) \<and>
   (\<forall>data. readDB P (s\<lparr>password := optional_oldPassword pl\<rparr>) = Inr data \<longrightarrow>
      changePassword P pl s = writeDB P data (s\<lparr>password := optional_newPassword pl\<rparr>))"
  by (auto simp: changePassword_def Let_def intro: readDB_depends)

theorem changePassword_all_or_nothing_witness:
  "changePassword toy_node (Some \<lparr>oldPassword = Some ''wrong'', newPassword = Some ''new''\<rparr>)
     (locked_store ''old'' alice_bob)
   = (Inl InvalidOldPassword, locked_store ''old'' alice_bob) \<and>
   readDB toy_node (locked_store ''old'' alice_bob) = Inr alice_bob \<and>
   changePassword toy_node (Some \<lparr>oldPassword = Some ''old'', newPassword = Some ''new''\<rparr>)
     (locked_store ''old'' alice_bob)
   = writeDB toy_node alice_bob ((locked_store ''old'' alice_bob)\<lparr>password := Some ''new''\<rparr>)"
proof -
  have pw: "truthy (password (sample_config\<lparr>password := Some ''old''\<rparr>)) = Some ''old''"
    by (simp add: truthy_def)
  have wrong: "readDB toy_node ((locked_store ''old'' alice_bob)\<lparr>password := Some ''wrong''\<rparr>)
      = Inl AuthenticationFailed"
    by (rule toy_wrong_password) simp_all
  have same: "(locked_store ''old'' alice_bob)\<lparr>password := Some ''old''\<rparr>
      = locked_store ''old'' alice_bob"
    using writeDB_config [of toy_node alice_bob "sample_config\<lparr>password := Some ''old''\<rparr>"]
    by (simp add: locked_store_def)
  show ?thesis
    using changePassword_all_or_nothing [where P = toy_node
        and s = "locked_store ''old'' alice_bob"
        and pl = "Some \<lparr>oldPassword = Some ''wrong'', newPassword = Some ''new''\<rparr>"]
      changePassword_all_or_nothing [where P = toy_node
        and s = "locked_store ''old'' alice_bob"
        and pl = "Some \<lparr>oldPassword = Some ''old'', newPassword = Some ''new''\<rparr>"]
      wrong locked_alice_bob_read same
    by (simp add: optional_newPassword_def optional_oldPassword_def)
qed

text \<open>
  Claim C10. \<^verbatim>\<open>changePassword\<close> validates nothing in its payload: whenever the old
  password decodes the current file, the new password of the payload becomes the active
  one, whatever it is. When it is absent, \<^verbatim>\<open>undefined\<close> or empty, the call itself writes
  the documents as plain JSON, and so does every later write.
\<close>

theorem changePassword_unvalidated:
  assumes "readDB P (s\<lparr>password := optional_oldPassword pl\<rparr>) = Inr data"
  shows "password (snd (changePassword P pl s)) = optional_newPassword pl \<and>
         (truthy (optional_newPassword pl) = None \<longrightarrow>
            changePassword P pl s =
              (Inr (), s\<lparr>password := optional_newPassword pl,
                          disk := Some (JSON_stringify P data)\<rparr>) \<and>
            (\<forall>data'. writeDB P data' (snd (changePassword P pl s)) =
               (Inr (), (snd (changePassword P pl s))\<lparr>disk := Some (JSON_stringify P data')\<rparr>)))"
  using assms
  by (simp add: changePassword_def Let_def writeDB_password writeDB_plain)

theorem changePassword_unvalidated_witness:
  "changePassword toy_node (Some \<lparr>oldPassword = Some ''old'', newPassword = None\<rparr>)
     (locked_store ''old'' alice_bob)
   = (Inr (), (locked_store ''old'' alice_bob)
               \<lparr>password := None, disk := Some (stringify [] alice_bob)\<rparr>)"
proof -
  have same: "(locked_store ''old'' alice_bob)\<lparr>password := Some ''old''\<rparr>
      = locked_store ''old'' alice_bob"
    using writeDB_config [of toy_node alice_bob "sample_config\<lparr>password := Some ''old''\<rparr>"]
    by (simp add: locked_store_def)
  have r: "readDB toy_node ((locked_store ''old'' alice_bob)
      \<lparr>password := optional_oldPassword (Some \<lparr>oldPassword = Some ''old'', newPassword = None\<rparr>)\<rparr>)
      = Inr alice_bob"
    using locked_alice_bob_read by (simp add: optional_oldPassword_def same)
  from changePassword_unvalidated [OF r]
  show ?thesis
    by (simp add: optional_newPassword_def truthy_def toy_node_def)
qed

section \<open>The envelope\<close>

text \<open>
  Claim C2, as amended. For every store \<open>S\<close> that JSON represents exactly (parsing the
  serialisation of \<open>S\<close> gives \<open>S\<close> back) and every configuration, with or without a
  password: if encoding \<open>S\<close> produces a file, decoding that file under the same
  configuration yields \<open>S\<close>, documents and fields in their order. Encoding always
  produces a file when no password is set; under a password it fails only when the
  crypto library throws.
\<close>

theorem envelope_round_trip:
  assumes inv: "cipher_inverts P"
    and json: "JSON_parse P (JSON_stringify P S) = Some S"
  shows "case writeDB P S s of
           (Inl e, s') \<Rightarrow> truthy (password s) \<noteq> None
         | (Inr u, s') \<Rightarrow>
             readDB P s' = Inr S \<and> password s' = password s \<and>
             iterations s' = iterations s \<and> digest s' = digest s \<and>
             algorithm s' = algorithm s"
proof (cases "writeDB P S s")
  case (Pair r s')
  show ?thesis
  proof (cases r)
    case (Inl e)
    with Pair show ?thesis
      by (cases "truthy (password s)") (simp_all add: writeDB_plain)
  next
    case (Inr u)
    with Pair have w: "writeDB P S s = (Inr u, s')" by simp
    from read_after_write [OF inv json w] writeDB_config [of P S s] w
    show ?thesis by simp
  qed
qed

theorem envelope_round_trip_witness:
  "readDB toy_node (locked_store ''old'' alice_bob) = Inr alice_bob \<and>
   readDB toy_node (plain_store alice_bob) = Inr alice_bob"
  using envelope_round_trip [OF toy_inverts alice_bob_json,
          of "sample_config\<lparr>password := Some ''old''\<rparr>"]
        envelope_round_trip [OF toy_inverts alice_bob_json, of sample_config]
  by (simp add: locked_store_written plain_store_written)

text \<open>
  The claim as stated, for every store, fails: a document with a field that holds
  \<^verbatim>\<open>undefined\<close>, which \<^verbatim>\<open>insert\<close> and \<^verbatim>\<open>update\<close> accept, is written without that field
  and read back without it, and \<^verbatim>\<open>undefined\<close> inside an array comes back as \<^verbatim>\<open>null\<close>.
\<close>

theorem undefined_field_counterexample:
  "readDB toy_node
     (plain_store (JArr [JObj [(''note'', JUndefined), (''tags'', JArr [JUndefined])]]))
     = Inr (JArr [JObj [(''tags'', JArr [JNull])]]) \<and>
   JArr [JObj [(''tags'', JArr [JNull])]]
     \<noteq> JArr [JObj [(''note'', JUndefined), (''tags'', JArr [JUndefined])]]"
  by code_simp

text \<open>
  Claim C9, as amended. Without a password, decoding fails with the syntax error of
  \<^verbatim>\<open>JSON.parse\<close>, a format error, when the content is not valid JSON, and returns the
  parsed value otherwise, whatever its shape: there is no check that it is an array.
  With a password, decoding fails with a format error when the content has no colon,
  and also when the part after the first colon does not split into exactly three
  components, provided the key derivation, which runs first, does not throw.
\<close>

theorem decode_shape_errors:
  "(truthy (password s) = None \<and> disk s = Some fileData \<longrightarrow>
      readDB P s = (case JSON_parse P fileData of
                      None \<Rightarrow> Inl SyntaxError
                    | Some data \<Rightarrow> Inr data)) \<and>
   (truthy (password s) \<noteq> None \<and> disk s = Some fileData \<and> CHR '':'' \<notin> set fileData \<longrightarrow>
      readDB P s = Inl InvalidFileFormat) \<and>
   (\<forall>salt rest.
      truthy (password s) = Some pw \<and> disk s = Some (salt @ '':'' @ rest) \<and>
      CHR '':'' \<notin> set salt \<and> length (split CHR '':'' rest) \<noteq> 3 \<longrightarrow>
      readDB P s = (case deriveKey P s pw salt of
                      Inl e \<Rightarrow> Inl e
                    | Inr key \<Rightarrow> Inl InvalidEncryptedTextFormat)) \<and>
   kind_of SyntaxError = FormatError \<and> kind_of InvalidFileFormat = FormatError \<and>
   kind_of InvalidEncryptedTextFormat = FormatError"
proof -
  have plain: "truthy (password s) = None \<and> disk s = Some fileData \<longrightarrow>
      readDB P s = (case JSON_parse P fileData of
                      None \<Rightarrow> Inl SyntaxError
                    | Some data \<Rightarrow> Inr data)"
    by (simp add: readDB_def)
  have nosep: "truthy (password s) \<noteq> None \<and> disk s = Some fileData \<and>
      CHR '':'' \<notin> set fileData \<longrightarrow> readDB P s = Inl InvalidFileFormat"
    by (auto simp: readDB_def indexOf_none)
  have parts: "readDB P s = (case deriveKey P s pw salt of
                      Inl e \<Rightarrow> Inl e
                    | Inr key \<Rightarrow> Inl InvalidEncryptedTextFormat)"
    if "truthy (password s) = Some pw" "disk s = Some (salt @ '':'' @ rest)"
       "CHR '':'' \<notin> set salt" "length (split CHR '':'' rest) \<noteq> 3" for salt rest
  proof -
    from that(2) have d: "disk s = Some (salt @ CHR '':'' # rest)" by simp
    show ?thesis
      unfolding readDB_envelope [OF that(1) d that(3)]
      using that(4) by (simp add: decryptWithKey_def split: sum.splits)
  qed
  show ?thesis
    using plain nosep parts by simp
qed

theorem decode_shape_errors_witness:
  "readDB toy_node (sample_config\<lparr>disk := Some ''[1,''\<rparr>) = Inl SyntaxError \<and>
   readDB toy_node (sample_config\<lparr>disk := Some ''[]''\<rparr>) = Inr (JArr []) \<and>
   readDB toy_node (sample_config\<lparr>password := Some ''old'', disk := Some ''0a0b0c''\<rparr>)
     = Inl InvalidFileFormat \<and>
   readDB toy_node (sample_config\<lparr>password := Some ''old'', disk := Some ''0a:0b:0c''\<rparr>)
     = Inl InvalidEncryptedTextFormat"
proof -
  have p: "truthy (password (sample_config\<lparr>disk := Some f\<rparr>)) = None" for f
    by (simp add: sample_config_def truthy_def)
  have q: "truthy (password (sample_config\<lparr>password := Some ''old'', disk := Some f\<rparr>))
      = Some ''old''" for f
    by (simp add: truthy_def)
  have j1: "JSON_parse toy_node ''[1,'' = None" by code_simp
  have j2: "JSON_parse toy_node ''[]'' = Some (JArr [])" by code_simp
  have k: "deriveKey toy_node s ''old'' ''0a'' = Inr (utf8_bytes ''0aold'')" for s
    by (simp add: deriveKey_def toy_node_def toy_pbkdf2_def)
  note t = decode_shape_errors [where P = toy_node and pw = "''old''"]
  have 1: "readDB toy_node (sample_config\<lparr>disk := Some ''[1,''\<rparr>) = Inl SyntaxError"
    using t [where s = "sample_config\<lparr>disk := Some ''[1,''\<rparr>" and fileData = "''[1,''"] p j1
    by simp
  have 2: "readDB toy_node (sample_config\<lparr>disk := Some ''[]''\<rparr>) = Inr (JArr [])"
    using t [where s = "sample_config\<lparr>disk := Some ''[]''\<rparr>" and fileData = "''[]''"] p j2
    by simp
  have 3: "readDB toy_node (sample_config\<lparr>password := Some ''old'', disk := Some ''0a0b0c''\<rparr>)
     = Inl InvalidFileFormat"
    using t [where s = "sample_config\<lparr>password := Some ''old'', disk := Some ''0a0b0c''\<rparr>"
        and fileData = "''0a0b0c''"] q
    by simp
  have 4: "readDB toy_node (sample_config\<lparr>password := Some ''old'', disk := Some ''0a:0b:0c''\<rparr>)
     = Inl InvalidEncryptedTextFormat"
    using t [where s = "sample_config\<lparr>password := Some ''old'', disk := Some ''0a:0b:0c''\<rparr>"
        and fileData = "''0a:0b:0c''", THEN conjunct2, THEN conjunct2, THEN conjunct1,
        rule_format, of "''0a''" "''0b:0c''"] q k
    by simp
  show ?thesis using 1 2 3 4 by simp
qed

text \<open>
  The claim as stated fails where it requires an array: valid JSON that is an object or
  a number is decoded without error.
\<close>

theorem not_an_array_counterexample:
  "readDB toy_node (sample_config\<lparr>disk := Some ''{}''\<rparr>) = Inr (JObj []) \<and>
   readDB toy_node (sample_config\<lparr>disk := Some ''42''\<rparr>) = Inr (JNum 42)"
  by code_simp





section \<open>Documents\<close>

lemma strict_eq_undefined: "strict_eq JUndefined v \<longleftrightarrow> v = JUndefined"
  by (cases v) simp_all

lemma strict_eq_same: "strict_eq a b \<Longrightarrow> a = b"
  by (cases a; cases b) simp_all

lemma strict_eq_join: "strict_eq a c \<Longrightarrow> strict_eq b c \<Longrightarrow> strict_eq b a"
  by (cases a; cases b; cases c) simp_all

lemma strict_eq_native: "is_native b \<Longrightarrow> strict_eq b e \<Longrightarrow> is_native e"
  by (cases b; cases e) simp_all

lemma get_prop_obj: "get_prop P (JObj d) key = Inr (read_field P d key)"
  by (simp add: get_prop_def read_field_def split: option.splits)

lemma read_field_own:
  "inherited P ObjectProto key = None \<Longrightarrow> read_field P d key = obj_get d key"
  by (simp add: read_field_def obj_get_def split: option.splits)

lemma everyE_pure: "everyE (\<lambda>x. Inr (p x)) xs = Inr (list_all p xs)"
  by (induction xs) simp_all

lemma filterE_pure:
  "(\<And>x. x \<in> set xs \<Longrightarrow> p x = Inr (q x)) \<Longrightarrow> filterE p xs = Inr (filter q xs)"
  by (induction xs) simp_all

lemma mapE_pure:
  "(\<And>x. x \<in> set xs \<Longrightarrow> f x = Inr (g x)) \<Longrightarrow> mapE f xs = Inr (map g xs)"
  by (induction xs) simp_all

lemma matches_obj: "matches P query (JObj d) = Inr (query_holds P query d)"
proof -
  have "strict_eq (read_field P d key) v =
        (case map_of d key of
           Some x \<Rightarrow> strict_eq x v
         | None \<Rightarrow>
             (case inherited P ObjectProto key of
                Some b \<Rightarrow> strict_eq b v
              | None \<Rightarrow> v = JUndefined))" for key v
    by (simp add: read_field_def strict_eq_undefined split: option.splits)
  then show ?thesis
    unfolding matches_def get_prop_obj query_holds_def
    by (simp add: everyE_pure)
qed

lemma has_id_obj: "has_id P ident (JObj d) = Inr (carries P ident d)"
  unfolding has_id_def get_prop_obj carries_def by simp

lemma lacks_id_obj: "lacks_id P ident (JObj d) = Inr (\<not> carries P ident d)"
  unfolding lacks_id_def get_prop_obj carries_def by simp

lemma filterE_objs:
  assumes "\<And>d. p (JObj d) = Inr (q d)"
  shows "filterE p (map JObj docs) = Inr (map JObj (filter q docs))"
  using assms by (induction docs) simp_all

lemma filter_length_differs:
  "length xs \<noteq> length (filter q xs) \<longleftrightarrow> (\<exists>x\<in>set xs. \<not> q x)"
proof
  assume "length xs \<noteq> length (filter q xs)"
  then have "filter q xs \<noteq> xs" by auto
  then show "\<exists>x\<in>set xs. \<not> q x" by (auto simp: filter_id_conv)
next
  assume "\<exists>x\<in>set xs. \<not> q x"
  then have "length (filter q xs) < length xs"
    by (metis length_filter_less)
  then show "length xs \<noteq> length (filter q xs)" by simp
qed

lemma unique_ids_one:
  assumes "unique_ids docs" and own: "inherited P ObjectProto ''id'' = None"
    and "d \<in> set docs" "carries P ident d"
  shows "\<exists>before after. docs = before @ d # after \<and>
           (\<forall>e\<in>set before \<union> set after. \<not> carries P ident e)"
  using assms(1,3,4)
proof (induction docs)
  case Nil
  then show ?case by simp
next
  case (Cons x xs)
  show ?case
  proof (cases "carries P ident x")
    case True
    have others: "\<not> carries P ident e" if "e \<in> set xs" for e
    proof
      assume "carries P ident e"
      with True have "strict_eq (obj_get e ''id'') (obj_get x ''id'')"
        using strict_eq_join [of "obj_get x ''id''" ident "obj_get e ''id''"]
        by (simp add: carries_def read_field_own [OF own])
      with Cons.prems(1) that show False
        by (simp add: list_all_iff)
    qed
    with Cons.prems(2,3) have "d = x" by auto
    with others show ?thesis by (intro exI [of _ "[]"] exI [of _ xs]) simp
  next
    case False
    with Cons.prems have "d \<in> set xs" by auto
    with Cons.IH Cons.prems obtain before after where
      "xs = before @ d # after" "\<forall>e\<in>set before \<union> set after. \<not> carries P ident e"
      by auto
    with False show ?thesis
      by (intro exI [of _ "x # before"] exI [of _ after]) simp
  qed
qed

lemma update_fresh: "k \<notin> fst ` set acc \<Longrightarrow> AList.update k v acc = acc @ [(k, v)]"
  by (induction acc) auto

lemma assign_all_fresh:
  "distinct (map fst (acc @ kvs)) \<Longrightarrow> assign_all kvs acc = acc @ kvs"
proof (induction kvs arbitrary: acc)
  case Nil
  then show ?case by (simp add: assign_all_def)
next
  case (Cons kv kvs)
  obtain k v where kv: "kv = (k, v)" by (cases kv)
  from Cons.prems kv have fresh: "k \<notin> fst ` set acc" by auto
  from Cons.prems kv have "distinct (map fst ((acc @ [(k, v)]) @ kvs))" by simp
  from Cons.IH [OF this] show ?case
    using fresh kv by (simp add: assign_all_def update_fresh)
qed

lemma map_of_assign_all: "map_of (assign_all ps target) = map_of target ++ map_of (rev ps)"
proof (induction ps arbitrary: target)
  case Nil
  then show ?case by (simp add: assign_all_def)
next
  case (Cons p ps)
  obtain k v where p: "p = (k, v)" by (cases p)
  have "map_of (assign_all (p # ps) target) = map_of (assign_all ps (AList.update k v target))"
    by (simp add: assign_all_def p)
  also have "\<dots> = (map_of target)(k \<mapsto> v) ++ map_of (rev ps)"
    by (simp add: Cons.IH update_conv' fun_upd_def)
  also have "\<dots> = map_of target ++ map_of (rev (p # ps))"
    by (rule ext) (simp add: p map_add_def split: option.splits)
  finally show ?case .
qed

lemma map_of_rev_distinct: "distinct (map fst ps) \<Longrightarrow> map_of (rev ps) k = map_of ps k"
proof (induction ps)
  case Nil
  then show ?case by simp
next
  case (Cons p ps)
  obtain a b where p: "p = (a, b)" by (cases p)
  from Cons.prems p have "map_of ps a = None"
    by (simp add: map_of_eq_None_iff)
  with Cons p show ?case
    by (auto simp: map_add_def split: option.splits)
qed

lemma read_field_merged:
  assumes "distinct (map fst updates)"
  shows "read_field P (assign_all updates d) key =
         (case map_of updates key of Some v \<Rightarrow> v | None \<Rightarrow> read_field P d key)"
  using assms
  by (simp add: read_field_def map_of_assign_all map_add_def map_of_rev_distinct
        split: option.splits)

lemma spread_obj:
  assumes "distinct (map fst d)"
  shows "spread (JObj d) updates = JObj (assign_all updates d)"
  using assign_all_fresh [of "[]" d] assms by (simp add: spread_def)

lemma mapE_objs:
  assumes "\<And>d. d \<in> set docs \<Longrightarrow> f (JObj d) = Inr (JObj (g d))"
  shows "mapE f (map JObj docs) = Inr (map JObj (map g docs))"
  using assms by (induction docs) simp_all

lemma findE_objs:
  "findE (has_id P ident) (map JObj docs) =
   Inr (case find (carries P ident) docs of None \<Rightarrow> JUndefined | Some d \<Rightarrow> JObj d)"
  by (induction docs) (simp_all add: has_id_obj)

text \<open>
  What \<^verbatim>\<open>update\<close> does when the updates leave the id alone: every document that carries
  the id is merged with the updates, field by field, the others are untouched, the
  result is written, and the first merged document is returned, or \<^verbatim>\<open>undefined\<close> when
  none carries the id.
\<close>

lemma update_merge_frame:
  assumes read: "readDB P s = Inr (JArr (map JObj docs))"
    and wf: "\<forall>d\<in>set docs. distinct (map fst d)"
    and wfu: "distinct (map fst updates)"
    and keep: "case map_of updates ''id'' of None \<Rightarrow> True | Some v \<Rightarrow> strict_eq v ident"
  shows "update_doc P ident updates s =
           (case writeDB P (JArr (map JObj
                   (map (\<lambda>d. if carries P ident d then assign_all updates d else d) docs))) s of
              (Inl e, s1) \<Rightarrow> (Inl e, s1)
            | (Inr u, s1) \<Rightarrow>
                (Inr (case find (carries P ident) docs of
                        None \<Rightarrow> JUndefined
                      | Some d \<Rightarrow> JObj (assign_all updates d)), s1))"
proof -
  let ?g = "\<lambda>d. if carries P ident d then assign_all updates d else d"
  have m: "mapE (\<lambda>doc. case has_id P ident doc of
                          Inl e \<Rightarrow> Inl e
                        | Inr b \<Rightarrow> Inr (if b then spread doc updates else doc))
             (map JObj docs) = Inr (map JObj (map ?g docs))"
    by (rule mapE_objs) (simp add: has_id_obj spread_obj wf)
  have still: "carries P ident (?g d) = carries P ident d" for d
    using keep read_field_merged [OF wfu, of P d "''id''"]
    by (auto simp: carries_def split: option.splits)
  have f: "find (carries P ident) (map ?g docs) = map_option ?g (find (carries P ident) docs)"
  proof (induction docs)
    case Nil
    then show ?case by simp
  next
    case (Cons d ds)
    then show ?case using still [of d] by (simp del: if_split)
  qed
  have r: "(case find (carries P ident) (map ?g docs) of None \<Rightarrow> JUndefined | Some d \<Rightarrow> JObj d) =
           (case find (carries P ident) docs of
              None \<Rightarrow> JUndefined
            | Some d \<Rightarrow> JObj (assign_all updates d))"
    unfolding f by (auto split: option.splits dest: find_Some_iff [THEN iffD1])
  have fe: "findE (has_id P ident) (map JObj (map ?g docs)) =
            Inr (case find (carries P ident) docs of
                   None \<Rightarrow> JUndefined
                 | Some d \<Rightarrow> JObj (assign_all updates d))"
    unfolding findE_objs r ..
  show ?thesis
    unfolding update_doc_def by (simp only: read m fe sum.case jsval.case)
qed

lemma plain_alice_bob_read: "readDB toy_node (plain_store alice_bob) = Inr alice_bob"
  by (rule read_after_write [OF toy_inverts alice_bob_json plain_store_written])

lemma plain_store_password: "truthy (password (plain_store S)) = None"
  using writeDB_config [of toy_node S sample_config]
  by (simp add: plain_store_def sample_config_def truthy_def)

lemma toy_unpolluted: "unpolluted toy_node"
  by (simp add: unpolluted_def toy_node_def toy_inherited_def)

lemma toy_no_inherited_id: "inherited toy_node ObjectProto ''id'' = None"
  by (simp add: toy_node_def toy_inherited_def Object_prototype_def)

text \<open>
  Claim C6, as amended. \<^verbatim>\<open>find\<close> without a query, or with the empty query, returns all
  documents. For every query it returns, in the order of the store, exactly the
  documents in which each field of the query reads strictly equal to the expected value,
  where a field that the document lacks reads as what the document inherits under that
  name (\<^verbatim>\<open>toString\<close>, \<^verbatim>\<open>constructor\<close>, ...) and as \<^verbatim>\<open>undefined\<close> when it inherits
  nothing. So a document that lacks a queried field does not match, unless the value
  expected is \<^verbatim>\<open>undefined\<close> and nothing is inherited, or is the very value inherited.
  When no expected value is \<^verbatim>\<open>undefined\<close> or a built-in of the runtime, and
  \<^verbatim>\<open>Object.prototype\<close> holds built-ins only, this is the claim as stated: every field of
  the query is present and strictly equal.
\<close>

theorem find_correct:
  assumes "readDB P s = Inr (JArr (map JObj docs))"
  shows "find_docs P None s = Inr (JArr (map JObj docs)) \<and>
         find_docs P (Some []) s = Inr (JArr (map JObj docs)) \<and>
         (\<forall>query. find_docs P (Some query) s =
            Inr (JArr (map JObj (filter (query_holds P query) docs)))) \<and>
         (\<forall>query. unpolluted P \<and> (\<forall>v\<in>snd ` set query. v \<noteq> JUndefined \<and> \<not> is_native v) \<longrightarrow>
            (\<forall>d. query_holds P query d = present_and_equal query d))"
proof -
  have f: "find_docs P (Some query) s =
           Inr (JArr (map JObj (filter (query_holds P query) docs)))" for query
    using assms by (simp add: find_docs_def filterE_objs [of "matches P query", OF matches_obj])
  have e: "filter (query_holds P []) docs = docs"
    by (simp add: query_holds_def Object_keys_def)
  have n: "find_docs P None s = find_docs P (Some []) s"
    by (simp add: find_docs_def)
  have same: "query_holds P query d = present_and_equal query d"
    if clean: "unpolluted P" and vals: "\<forall>v\<in>snd ` set query. v \<noteq> JUndefined \<and> \<not> is_native v"
    for query d
  proof -
    have expected: "obj_get query key \<noteq> JUndefined \<and> \<not> is_native (obj_get query key)"
      if "key \<in> set (Object_keys query)" for key
    proof -
      from that have "key \<in> fst ` set query" by (simp add: Object_keys_def)
      then obtain v where v: "map_of query key = Some v"
        by (metis domD dom_map_of_conv_image_fst)
      then have "(key, v) \<in> set query" by (rule map_of_SomeD)
      then have "v \<in> snd ` set query" by force
      with vals have "v \<noteq> JUndefined \<and> \<not> is_native v" by blast
      with v show ?thesis
        by (simp add: obj_get_def)
    qed
    have absent: "(case inherited P ObjectProto key of
                     Some b \<Rightarrow> strict_eq b (obj_get query key)
                   | None \<Rightarrow> obj_get query key = JUndefined) = False"
      if "key \<in> set (Object_keys query)" for key
    proof (cases "inherited P ObjectProto key")
      case None
      with expected [OF that] show ?thesis by simp
    next
      case (Some b)
      with clean have "is_native b" by (simp add: unpolluted_def)
      with expected [OF that] strict_eq_native [of b "obj_get query key"] Some
      show ?thesis by auto
    qed
    show ?thesis
      unfolding query_holds_def present_and_equal_def list_all_iff
      using absent by (auto split: option.splits)
  qed
  show ?thesis
    using f e n same by simp
qed

theorem find_correct_witness:
  "find_docs toy_node None (plain_store alice_bob) = Inr alice_bob \<and>
   find_docs toy_node (Some [(''name'', JStr ''Alice'')]) (plain_store alice_bob) =
     Inr (JArr [JObj [(''id'', JNum 1), (''name'', JStr ''Alice''), (''age'', JNum 25)]]) \<and>
   find_docs toy_node (Some [(''name'', JStr ''Bob''), (''age'', JNum 25)]) (plain_store alice_bob) =
     Inr (JArr []) \<and>
   find_docs toy_node (Some [(''toString'', JUndefined)]) (plain_store alice_bob) = Inr (JArr []) \<and>
   query_holds toy_node [(''name'', JStr ''Alice'')] [(''id'', JNum 2), (''name'', JStr ''Bob'')]
     = present_and_equal [(''name'', JStr ''Alice'')] [(''id'', JNum 2), (''name'', JStr ''Bob'')]"
proof -
  have r: "readDB toy_node (plain_store alice_bob) =
      Inr (JArr (map JObj [[(''id'', JNum 1), (''name'', JStr ''Alice''), (''age'', JNum 25)],
                           [(''id'', JNum 2), (''name'', JStr ''Bob'')]]))"
    using plain_alice_bob_read by (simp add: alice_bob_def)
  have q: "\<forall>v\<in>snd ` set [(''name'', JStr ''Alice'')]. v \<noteq> JUndefined \<and> \<not> is_native v"
    by simp
  from find_correct [OF r] toy_unpolluted q
  have 4: "query_holds toy_node [(''name'', JStr ''Alice'')] [(''id'', JNum 2), (''name'', JStr ''Bob'')]
     = present_and_equal [(''name'', JStr ''Alice'')] [(''id'', JNum 2), (''name'', JStr ''Bob'')]"
    by blast
  from find_correct [OF r] 4 show ?thesis
    by (simp add: alice_bob_def query_holds_def Object_keys_def obj_get_def toy_node_def
          toy_inherited_def Object_prototype_def)
qed

text \<open>
  The claim as stated, that a document lacking a queried field never matches, fails: no
  document of the sample store has a nickname, and the query for the nickname
  \<^verbatim>\<open>undefined\<close> returns them all.
\<close>

theorem undefined_query_counterexample:
  "find_docs toy_node (Some [(''nickname'', JUndefined)]) (plain_store alice_bob) = Inr alice_bob \<and>
   map_of [(''id'', JNum 1), (''name'', JStr ''Alice''), (''age'', JNum 25)] ''nickname'' = None \<and>
   map_of [(''id'', JNum 2), (''name'', JStr ''Bob'')] ''nickname'' = None"
  by code_simp

text \<open>
  Claim C7, as amended. For every store of documents and every id, \<^verbatim>\<open>delete\<close> writes the
  store without the documents that carry the id, every one of them, and returns true
  exactly when some document carried it. When none did, what it writes is the store it
  read. When one did, no two documents of the store share an id and no id is inherited,
  exactly one document is removed and the others stay, in their order. When the call
  returns, reading the file back gives the store that was written, provided the
  decipher inverts the cipher and JSON represents that store exactly.
\<close>

theorem delete_correct:
  assumes "readDB P s = Inr (JArr (map JObj docs))"
  shows "delete_doc P ident s =
           (case writeDB P (JArr (map JObj (filter (\<lambda>d. \<not> carries P ident d) docs))) s of
              (Inl e, s1) \<Rightarrow> (Inl e, s1)
            | (Inr u, s1) \<Rightarrow> (Inr (\<exists>d\<in>set docs. carries P ident d), s1)) \<and>
         ((\<forall>d\<in>set docs. \<not> carries P ident d) \<longrightarrow>
            filter (\<lambda>d. \<not> carries P ident d) docs = docs) \<and>
         (unique_ids docs \<and> inherited P ObjectProto ''id'' = None \<and>
          (\<exists>d\<in>set docs. carries P ident d) \<longrightarrow>
            (\<exists>before d after. docs = before @ d # after \<and> carries P ident d \<and>
               filter (\<lambda>d. \<not> carries P ident d) docs = before @ after)) \<and>
         (\<forall>b s'. cipher_inverts P \<and>
            JSON_parse P (JSON_stringify P
               (JArr (map JObj (filter (\<lambda>d. \<not> carries P ident d) docs))))
              = Some (JArr (map JObj (filter (\<lambda>d. \<not> carries P ident d) docs))) \<and>
            delete_doc P ident s = (Inr b, s') \<longrightarrow>
            readDB P s' = Inr (JArr (map JObj (filter (\<lambda>d. \<not> carries P ident d) docs))) \<and>
            b = (\<exists>d\<in>set docs. carries P ident d))"
proof -
  let ?kept = "filter (\<lambda>d. \<not> carries P ident d) docs"
  have len: "(length docs \<noteq> length ?kept) = (\<exists>d\<in>set docs. carries P ident d)"
    by (simp add: filter_length_differs)
  have 1: "delete_doc P ident s =
           (case writeDB P (JArr (map JObj ?kept)) s of
              (Inl e, s1) \<Rightarrow> (Inl e, s1)
            | (Inr u, s1) \<Rightarrow> (Inr (\<exists>d\<in>set docs. carries P ident d), s1))"
    using assms
    by (simp add: delete_doc_def filterE_objs [of "lacks_id P ident", OF lacks_id_obj] len
          split: prod.splits sum.splits)
  have 2: "(\<forall>d\<in>set docs. \<not> carries P ident d) \<longrightarrow> ?kept = docs"
    by (simp add: filter_id_conv)
  have 3: "\<exists>before d after. docs = before @ d # after \<and> carries P ident d \<and>
               ?kept = before @ after"
    if u: "unique_ids docs" and own: "inherited P ObjectProto ''id'' = None"
      and ex: "\<exists>d\<in>set docs. carries P ident d"
  proof -
    from ex obtain d where d: "d \<in> set docs" "carries P ident d" by blast
    from unique_ids_one [OF u own d] obtain before after where
      "docs = before @ d # after" "\<forall>e\<in>set before \<union> set after. \<not> carries P ident e"
      by blast
    with d(2) show ?thesis
      by (intro exI [of _ before] exI [of _ d] exI [of _ after]) (simp add: filter_id_conv)
  qed
  have 4: "readDB P s' = Inr (JArr (map JObj ?kept)) \<and> b = (\<exists>d\<in>set docs. carries P ident d)"
    if inv: "cipher_inverts P"
      and json: "JSON_parse P (JSON_stringify P (JArr (map JObj ?kept)))
                 = Some (JArr (map JObj ?kept))"
      and ret: "delete_doc P ident s = (Inr b, s')" for b s'
  proof -
    from ret 1 have w: "writeDB P (JArr (map JObj ?kept)) s = (Inr (), s')"
      and b: "b = (\<exists>d\<in>set docs. carries P ident d)"
      by (auto split: prod.splits sum.splits)
    from read_after_write [OF inv json w] b show ?thesis by simp
  qed
  show ?thesis
    using 1 2 3 4 by blast
qed

theorem delete_correct_witness:
  "delete_doc toy_node (JNum 1) (plain_store alice_bob) =
     (Inr True, (plain_store alice_bob)
        \<lparr>disk := Some (stringify [] (JArr [JObj [(''id'', JNum 2), (''name'', JStr ''Bob'')]]))\<rparr>) \<and>
   readDB toy_node (snd (delete_doc toy_node (JNum 1) (plain_store alice_bob))) =
     Inr (JArr [JObj [(''id'', JNum 2), (''name'', JStr ''Bob'')]]) \<and>
   delete_doc toy_node (JNum 7) (plain_store alice_bob) =
     (Inr False, (plain_store alice_bob)\<lparr>disk := Some (stringify [] alice_bob)\<rparr>) \<and>
   readDB toy_node (snd (delete_doc toy_node (JNum 7) (plain_store alice_bob))) = Inr alice_bob \<and>
   unique_ids [[(''id'', JNum 1), (''name'', JStr ''Alice''), (''age'', JNum 25)],
               [(''id'', JNum 2), (''name'', JStr ''Bob'')]] \<and>
   inherited toy_node ObjectProto ''id'' = None"
proof -
  let ?alice = "[(''id'', JNum 1), (''name'', JStr ''Alice''), (''age'', JNum 25)]"
  let ?bob = "[(''id'', JNum 2), (''name'', JStr ''Bob'')]"
  have ab: "alice_bob = JArr [JObj ?alice, JObj ?bob]"
    by (simp add: alice_bob_def)
  have r: "readDB toy_node (plain_store alice_bob) = Inr (JArr (map JObj [?alice, ?bob]))"
    using plain_alice_bob_read by (simp add: ab)
  have u: "unique_ids [?alice, ?bob]"
    by (simp add: obj_get_def)
  have c: "carries toy_node (JNum 1) ?alice" "\<not> carries toy_node (JNum 1) ?bob"
          "\<not> carries toy_node (JNum 7) ?alice" "\<not> carries toy_node (JNum 7) ?bob"
    by (simp_all add: carries_def read_field_def)
  have k1: "filter (\<lambda>d. \<not> carries toy_node (JNum 1) d) [?alice, ?bob] = [?bob]"
    and k7: "filter (\<lambda>d. \<not> carries toy_node (JNum 7) d) [?alice, ?bob] = [?alice, ?bob]"
    using c by simp_all
  have e1: "(\<exists>d\<in>set [?alice, ?bob]. carries toy_node (JNum 1) d) = True"
    and e7: "(\<exists>d\<in>set [?alice, ?bob]. carries toy_node (JNum 7) d) = False"
    using c by simp_all
  have j1: "JSON_parse toy_node (JSON_stringify toy_node (JArr (map JObj [?bob])))
              = Some (JArr (map JObj [?bob]))"
    by code_simp
  have j7: "JSON_parse toy_node (JSON_stringify toy_node (JArr (map JObj [?alice, ?bob])))
              = Some (JArr (map JObj [?alice, ?bob]))"
    by code_simp
  have w: "writeDB toy_node S (plain_store X) =
           (Inr (), (plain_store X)\<lparr>disk := Some (stringify [] S)\<rparr>)" for S X
    by (simp add: writeDB_plain plain_store_password toy_node_def)
  note D1 = delete_correct [OF r, of "JNum 1", unfolded k1 e1]
  note D7 = delete_correct [OF r, of "JNum 7", unfolded k7 e7]
  from D1 [THEN conjunct1]
  have d1: "delete_doc toy_node (JNum 1) (plain_store alice_bob) =
            (Inr True, (plain_store alice_bob)\<lparr>disk := Some (stringify [] (JArr (map JObj [?bob])))\<rparr>)"
    by (simp only: w prod.case sum.case)
  from D7 [THEN conjunct1]
  have d7: "delete_doc toy_node (JNum 7) (plain_store alice_bob) =
            (Inr False, (plain_store alice_bob)
               \<lparr>disk := Some (stringify [] (JArr (map JObj [?alice, ?bob])))\<rparr>)"
    by (simp only: w prod.case sum.case)
  from D1 [THEN conjunct2, THEN conjunct2, THEN conjunct2, rule_format,
      OF conjI [OF toy_inverts conjI [OF j1 d1]]]
  have r1: "readDB toy_node (snd (delete_doc toy_node (JNum 1) (plain_store alice_bob))) =
            Inr (JArr (map JObj [?bob]))"
    by (simp only: d1 snd_conv)
  from D7 [THEN conjunct2, THEN conjunct2, THEN conjunct2, rule_format,
      OF conjI [OF toy_inverts conjI [OF j7 d7]]]
  have r7: "readDB toy_node (snd (delete_doc toy_node (JNum 7) (plain_store alice_bob))) =
            Inr (JArr (map JObj [?alice, ?bob]))"
    by (simp only: d7 snd_conv)
  from d1 r1 d7 r7 u toy_no_inherited_id show ?thesis
    by (simp only: ab list.map)
qed

text \<open>
  The claim as stated, that deleting an existing id removes exactly one document, fails:
  two inserts within one millisecond give two documents the same id, and \<^verbatim>\<open>delete\<close> of
  that id returns true and removes them both.
\<close>

theorem delete_removes_both_counterexample:
  "readDB toy_node
     (snd (insert_doc toy_node [(''name'', JStr ''Bob'')]
        (snd (insert_doc toy_node [(''name'', JStr ''Alice'')] (plain_store (JArr []))))))
   = Inr (JArr [JObj [(''name'', JStr ''Alice''), (''id'', JNum 1700000000000)],
                JObj [(''name'', JStr ''Bob''), (''id'', JNum 1700000000000)]]) \<and>
   fst (delete_doc toy_node (JNum 1700000000000)
     (snd (insert_doc toy_node [(''name'', JStr ''Bob'')]
        (snd (insert_doc toy_node [(''name'', JStr ''Alice'')] (plain_store (JArr [])))))))
   = Inr True \<and>
   readDB toy_node (snd (delete_doc toy_node (JNum 1700000000000)
     (snd (insert_doc toy_node [(''name'', JStr ''Bob'')]
        (snd (insert_doc toy_node [(''name'', JStr ''Alice'')] (plain_store (JArr []))))))))
   = Inr (JArr [])"
  by code_simp

text \<open>
  Claim C3 says that \<^verbatim>\<open>update\<close> never reassigns an id. The merge
  \<^verbatim>\<open>{ ...doc, ...updates }\<close> lets the updates win: after \<^verbatim>\<open>update(1, {id: 2})\<close> on the
  sample store the document selected by id 1 is stored with id 2, the id of another
  document.
\<close>

theorem update_reassigns_id:
  "readDB toy_node (snd (update_doc toy_node (JNum 1) [(''id'', JNum 2)] (plain_store alice_bob))) =
     Inr (JArr [JObj [(''id'', JNum 2), (''name'', JStr ''Alice''), (''age'', JNum 25)],
                JObj [(''id'', JNum 2), (''name'', JStr ''Bob'')]])"
  by code_simp

text \<open>
  Claim C8 says that \<^verbatim>\<open>update\<close> returns the merged document. It looks the result up by
  the id it was given, after the merge: when the updates carry another id, the merged
  document is written and \<^verbatim>\<open>undefined\<close>, the sign of "not found", is returned.
\<close>

theorem update_loses_result:
  "fst (update_doc toy_node (JNum 1) [(''id'', JNum 7), (''age'', JNum 26)] (plain_store alice_bob))
     = Inr JUndefined \<and>
   readDB toy_node
     (snd (update_doc toy_node (JNum 1) [(''id'', JNum 7), (''age'', JNum 26)] (plain_store alice_bob)))
     = Inr (JArr [JObj [(''id'', JNum 7), (''name'', JStr ''Alice''), (''age'', JNum 26)],
                  JObj [(''id'', JNum 2), (''name'', JStr ''Bob'')]])"
  by code_simp

text \<open>
  Claim C4 says that the ids assigned by successive inserts are pairwise distinct. The
  id is the reading of the clock: two inserts within one millisecond, into a store
  that is empty and so has no duplicate, assign the same id twice.
\<close>

theorem insert_same_millisecond:
  "readDB toy_node
     (snd (insert_doc toy_node [(''name'', JStr ''Bob'')]
        (snd (insert_doc toy_node [(''name'', JStr ''Alice'')] (plain_store (JArr []))))))
   = Inr (JArr [JObj [(''name'', JStr ''Alice''), (''id'', JNum 1700000000000)],
                JObj [(''name'', JStr ''Bob''), (''id'', JNum 1700000000000)]]) \<and>
   unique_ids [] \<and>
   \<not> unique_ids [[(''name'', JStr ''Alice''), (''id'', JNum 1700000000000)],
                 [(''name'', JStr ''Bob''), (''id'', JNum 1700000000000)]]"
  by code_simp

end
